theory Spec2Isabelle
  imports Complex_Main
begin

section \<open>Python values and operators\<close>

text \<open>
  Numbers are Python ints and floats; they are modelled as mathematical reals
  (a flap configuration, which indexes lists, as an integer). Rounding, overflow and
  NaN of IEEE doubles are outside the model. What Python raises is a value:
  every fallible operation returns \<open>py_error + 'a\<close>, with \<open>Inl\<close> the exception.
\<close>

datatype py_error = ZeroDivisionError | ValueError | IndexError

definition bind_e :: "py_error + 'a \<Rightarrow> ('a \<Rightarrow> py_error + 'b) \<Rightarrow> py_error + 'b" where
  "bind_e x f = (case x of Inl err \<Rightarrow> Inl err | Inr v \<Rightarrow> f v)"

text \<open>\<open>x / y\<close> on numbers.\<close>

definition py_div :: "real \<Rightarrow> real \<Rightarrow> py_error + real" where
  "py_div x y = (if y = 0 then Inl ZeroDivisionError else Inr (x / y))"

text \<open>
  \<open>x ** y\<close> with a float exponent. Zero to a negative power raises
  ZeroDivisionError; a negative base with a fractional exponent raises ValueError
  (Python 2; Python 3 gives a complex number there, and the later \<open>max\<close> raises).
\<close>

definition py_pow :: "real \<Rightarrow> real \<Rightarrow> py_error + real" where
  "py_pow x y =
     (if 0 < x then Inr (x powr y)
      else if x = 0 then
        (if y < 0 then Inl ZeroDivisionError else if y = 0 then Inr 1 else Inr 0)
      else if y \<in> \<int> then Inr ((if even \<lfloor>y\<rfloor> then 1 else - 1) * ((- x) powr y))
      else Inl ValueError)"

text \<open>\<open>xs[i]\<close>: a negative index counts from the end, out of range raises IndexError.\<close>

definition py_index :: "'a list \<Rightarrow> int \<Rightarrow> py_error + 'a" where
  "py_index xs i =
     (if 0 \<le> i \<and> i < int (length xs) then Inr (xs ! nat i)
      else if i < 0 \<and> - int (length xs) \<le> i then Inr (xs ! nat (int (length xs) + i))
      else Inl IndexError)"

section \<open>projectUtil.py: the atmosphere\<close>

text \<open>
  An environment is any object with an attribute \<open>g\<close> and a method \<open>getRho\<close>;
  class ISA is the one the repository defines. Its constants are set in \<open>__init__\<close>.
\<close>

record environment =
  g :: real
  getRho :: "real \<Rightarrow> py_error + real"

definition ISA_p_0 :: real where "ISA_p_0 = 101325"
definition ISA_T_0 :: real where "ISA_T_0 = 15 + 273.15"
definition ISA_rho_0 :: real where "ISA_rho_0 = 1.225"
definition ISA_R :: real where "ISA_R = 8.31432"
definition ISA_M_g :: real where "ISA_M_g = 0.0289644"
definition ISA_g :: real where "ISA_g = 9.80665"
definition ISA_L_b :: real where "ISA_L_b = - 0.0065"
definition ISA_h_t :: real where "ISA_h_t = 11000"

text \<open>\<open>ISA.getT\<close>, \<open>ISA.getRho\<close> on a scalar altitude (the list form maps the scalar one).\<close>

definition ISA_getT :: "real \<Rightarrow> real" where
  "ISA_getT h = (if h > ISA_h_t then ISA_T_0 + ISA_L_b * ISA_h_t else ISA_T_0 + ISA_L_b * h)"

definition ISA_getRho_low :: "real \<Rightarrow> py_error + real" where
  "ISA_getRho_low h =
     bind_e (py_pow (1 - ISA_L_b * h / ISA_T_0) (1 + ISA_g * ISA_M_g / ISA_R / ISA_L_b))
       (\<lambda>p. Inr (ISA_rho_0 * p))"

definition ISA_getRho :: "real \<Rightarrow> py_error + real" where
  "ISA_getRho h =
     (if h > ISA_h_t then
        bind_e (ISA_getRho_low ISA_h_t) (\<lambda>rho_t.
        bind_e (py_div (- ISA_g * ISA_M_g * (h - ISA_h_t) / ISA_R) (ISA_getT h)) (\<lambda>x.
          Inr (rho_t * exp x)))
      else ISA_getRho_low h)"

definition ISA :: environment where
  "ISA = \<lparr>g = ISA_g, getRho = ISA_getRho\<rparr>"

section \<open>projectUtil.py: the aircraft\<close>

text \<open>
  A state is the tuple (altitude, speed, configuration, distance). The aircraft's
  constructor arguments are the record; span, aspect ratio, parasite drag and Oswald
  efficiency are the constants \<open>__init__\<close> sets.
\<close>

type_synonym state = "real \<times> real \<times> int \<times> real"

record aircraft =
  mass :: real
  eta :: real
  idleBurnRate :: real
  minSpeed :: "real list"
  maxSpeed :: "real list"

definition aircraft_b :: real where "aircraft_b = 35"
definition aircraft_AR :: real where "aircraft_AR = 9.45"
definition aircraft_cDp :: "real list" where
  "aircraft_cDp = [0.0165, 0.018, 0.02, 0.023, 0.03]"
definition aircraft_e :: real where "aircraft_e = 0.8"

definition getcL :: "aircraft \<Rightarrow> state \<Rightarrow> environment \<Rightarrow> py_error + real" where
  "getcL a st en = (case st of (h, v, c, d) \<Rightarrow>
     bind_e (getRho en 0) (\<lambda>r0.
       py_div (g en * mass a) (0.5 * r0 * v\<^sup>2 * (aircraft_b\<^sup>2 / aircraft_AR))))"

definition getcD :: "aircraft \<Rightarrow> state \<Rightarrow> environment \<Rightarrow> py_error + real" where
  "getcD a st en = (case st of (h, v, c, d) \<Rightarrow>
     bind_e (getcL a st en) (\<lambda>cL.
     bind_e (py_index aircraft_cDp c) (\<lambda>cdp.
       Inr (cdp + cL\<^sup>2 / (aircraft_e * aircraft_AR * pi)))))"

definition getD :: "aircraft \<Rightarrow> state \<Rightarrow> environment \<Rightarrow> py_error + real" where
  "getD a st en = (case st of (h, v, c, d) \<Rightarrow>
     bind_e (getcD a st en) (\<lambda>cD.
     bind_e (getRho en 0) (\<lambda>r0.
       Inr (0.5 * r0 * v\<^sup>2 * cD * aircraft_b\<^sup>2 / aircraft_AR))))"

section \<open>projectUtil.py: the approach MDP\<close>

text \<open>
  An action is a Python string, or None: \<open>dict.get\<close> returns None for a state the
  policy lacks, and the rollout passes it on to the MDP, where it compares unequal to
  every action name.
\<close>

type_synonym action = "string option"

record ApproachMDP =
  env :: environment
  ac :: aircraft
  altitude :: real
  speed :: real
  config :: int
  distance :: real
  FAFstate :: "real \<times> real \<times> int"
  dDist :: real

definition kFuel :: "ApproachMDP \<Rightarrow> real" where "kFuel m = 43000000"
definition dD :: "ApproachMDP \<Rightarrow> real" where "dD m = 1000 * dDist m"
definition dA :: "ApproachMDP \<Rightarrow> real" where "dA m = 50 * dDist m"
definition dS :: "ApproachMDP \<Rightarrow> real" where "dS m = 5 * dDist m"

definition getDecel :: "ApproachMDP \<Rightarrow> state \<Rightarrow> real" where
  "getDecel m st = dS m"

definition getDescend :: "ApproachMDP \<Rightarrow> state \<Rightarrow> real" where
  "getDescend m st = dA m"

definition startState :: "ApproachMDP \<Rightarrow> state" where
  "startState m = (altitude m, speed m, config m, distance m)"

definition getCost :: "ApproachMDP \<Rightarrow> state \<Rightarrow> action \<Rightarrow> py_error + real" where
  "getCost m st act = (case st of (h, v, c, d) \<Rightarrow>
     bind_e (getRho (env m) 0) (\<lambda>r0.
     bind_e (getRho (env m) h) (\<lambda>ra.
     bind_e (py_div r0 ra) (\<lambda>q.
     bind_e (py_pow q 0.5) (\<lambda>sq.
     let tas = v * sq; maneuverCost = 0 in
     bind_e (getRho (env m) h) (\<lambda>ra'.
     bind_e (getRho (env m) 0) (\<lambda>r0'.
     bind_e (py_div ra' r0') (\<lambda>q'.
     bind_e (py_pow q' 0.5) (\<lambda>sq'.
     let EdD = dD m * sq';
         altAfter = (if act = Some ''climb'' then h + dA m
                     else if act = Some ''descend'' then h - getDescend m st
                     else h);
         tasAfter = (if act = Some ''accel'' then tas + dS m
                     else if act = Some ''decel'' then tas - getDecel m st
                     else tas)
     in
     bind_e (getcL (ac m) st (env m)) (\<lambda>cL.
     bind_e (getcD (ac m) st (env m)) (\<lambda>cD.
     bind_e (py_div cL cD) (\<lambda>cLcD.
     bind_e (getD (ac m) st (env m)) (\<lambda>drag.
     let Ereq = mass (ac m) * g (env m) * (altAfter - h)
                + EdD * drag
                + 0.5 * (tasAfter\<^sup>2 - tas\<^sup>2) * mass (ac m)
     in
     bind_e (py_div (idleBurnRate (ac m) * dD m) tas) (\<lambda>minFuel.
     bind_e (py_div Ereq (eta (ac m))) (\<lambda>x.
       Inr (max (x / kFuel m) minFuel + maneuverCost))))))))))))))))"

definition actions :: "ApproachMDP \<Rightarrow> state \<Rightarrow> py_error + string list" where
  "actions m st = (case st of (h, v, c, d) \<Rightarrow>
     bind_e (if c > 0
             then bind_e (py_index (minSpeed (ac m)) (c - 1)) (\<lambda>lo.
                    Inr (if v \<ge> lo then [''climb'', ''level''] @ [''retract'']
                         else [''climb'', ''level'']))
             else Inr [''climb'', ''level'']) (\<lambda>as1.
     bind_e (if c < int (length (minSpeed (ac m))) - 1
             then bind_e (py_index (maxSpeed (ac m)) (c + 1)) (\<lambda>hi.
                    Inr (if v \<le> hi then as1 @ [''extend''] else as1))
             else Inr as1) (\<lambda>as2.
     let as3 = (if h > getDescend m st then as2 @ [''descend''] else as2) in
     bind_e (py_index (minSpeed (ac m)) c) (\<lambda>lo.
     let as4 = (if v \<ge> lo + getDecel m st then as3 @ [''decel''] else as3) in
     bind_e (py_index (maxSpeed (ac m)) c) (\<lambda>hi.
       Inr (if v \<le> hi - dS m then as4 @ [''accel''] else as4))))))"

text \<open>\<open>self.FAFstate + (0,)\<close>, and the cost of arriving off the target.\<close>

definition terminalState :: "ApproachMDP \<Rightarrow> state" where
  "terminalState m = (case FAFstate m of (fh, fv, fc) \<Rightarrow> (fh, fv, fc, 0))"

definition overshootCost :: "ApproachMDP \<Rightarrow> state \<Rightarrow> real" where
  "overshootCost m st = (case st of (h, v, c, d) \<Rightarrow> case FAFstate m of (fh, fv, fc) \<Rightarrow>
     10000 * sum_list (map (\<lambda>(x, y). 10000000 * (x - y)\<^sup>2) (zip [h, v] [fh, fv]))
     + 100000000 * \<bar>real_of_int c - real_of_int fc\<bar>)"

type_synonym outcome = "state \<times> real \<times> real"

definition succAndProbReward :: "ApproachMDP \<Rightarrow> state \<Rightarrow> action \<Rightarrow> py_error + outcome list" where
  "succAndProbReward m st act = (case st of (h, v, c, d) \<Rightarrow>
     if st = terminalState m then Inr []
     else if d \<le> 0 then Inr [(terminalState m, 1, - overshootCost m st)]
     else
       bind_e (getCost m st act) (\<lambda>cost.
       let reward = - cost; d' = d - dD m in
       if act = Some ''climb'' then
         (let h' = h - dA m in
          Inr [((h', v, c, d'), 0.8, reward), ((h' + 10, v, c, d'), 0.1, reward),
               ((h' - 10, v, c, d'), 0.1, reward)])
       else if act = Some ''descend'' then
         (let h' = h - getDescend m st in
          Inr [((h', v, c, d'), 0.8, reward), ((h' + 1, v, c, d'), 0.1, reward),
               ((h' - 1, v, c, d'), 0.1, reward)])
       else if act = Some ''extend'' then
         Inr [((h, v, c + 1, d'), 0.95, reward), ((h, v, c, d'), 0.05, reward)]
       else if act = Some ''retract'' then
         Inr [((h, v, c - 1, d'), 0.95, reward), ((h, v, c, d'), 0.05, reward)]
       else if act = Some ''accel'' then
         (let v' = v + dS m in
          Inr [((h, v', c, d'), 0.8, reward), ((h, v' + 1, c, d'), 0.1, reward),
               ((h, v' - 1, c, d'), 0.1, reward)])
       else if act = Some ''decel'' then
         (let v' = v - getDecel m st in
          Inr [((h, v', c, d'), 0.8, reward), ((h, v' + 1, c, d'), 0.1, reward),
               ((h, v' - 1, c, d'), 0.1, reward)])
       else Inr [((h, v, c, d'), 1, reward)]))"

definition discount :: "ApproachMDP \<Rightarrow> real" where
  "discount m = 1"

section \<open>plotUtil.py: the rollout\<close>

text \<open>
  The policy \<open>vi.pi\<close> is a dictionary from states to action names. \<open>plotTrajectory\<close>
  keeps its traces in local lists; the record holds them together with the loop
  variables \<open>state\<close> and \<open>action\<close>. Plotting and printing are left out.
  \<open>state[3] / 1000\<close> is modelled as real division.
\<close>

type_synonym policy = "state \<Rightarrow> string option"

text \<open>The truth value of \<open>vi.pi.get(key)\<close>: None and the empty string are false.\<close>

definition truthy :: "string option \<Rightarrow> bool" where
  "truthy x = (case x of None \<Rightarrow> False | Some s \<Rightarrow> s \<noteq> [])"

record rollout =
  alt :: "real list"
  altDec :: "real list"
  altAcc :: "real list"
  dist_l :: "real list"
  distDec :: "real list"
  distAcc :: "real list"
  retractionA :: "real list"
  retractionD :: "real list"
  extensionD :: "real list"
  extensionA :: "real list"
  EAS :: "real list"
  TAS :: "real list"
  velDist :: "real list"
  fuelUsed :: real
  state :: state
  action :: action

definition initRollout :: "state \<Rightarrow> action \<Rightarrow> rollout" where
  "initRollout st act =
     \<lparr>alt = [], altDec = [], altAcc = [], dist_l = [], distDec = [], distAcc = [],
      retractionA = [], retractionD = [], extensionD = [], extensionA = [],
      EAS = [], TAS = [], velDist = [], fuelUsed = 0, state = st, action = act\<rparr>"

text \<open>
  The search for a start state (lines 18 to 35). The natural number is fuel: the
  outer None is a loop that has not ended within it. \<open>Some None\<close> is the early
  \<open>return None\<close>, \<open>Some (Some st)\<close> the state the rollout starts from.
\<close>

fun searchLoop :: "nat \<Rightarrow> policy \<Rightarrow> state \<Rightarrow> state \<Rightarrow> nat \<Rightarrow> state option option" where
  "searchLoop 0 vi_pi oldState st i = (if vi_pi st \<noteq> None then Some (Some st) else None)"
| "searchLoop (Suc n) vi_pi oldState st i =
     (if vi_pi st \<noteq> None then Some (Some st)
      else (case oldState of (h, v, c, d) \<Rightarrow>
        let i' = i + 1 in
        if truthy (vi_pi (h + real i', v, c, d)) then Some (Some (h + real i', v, c, d))
        else if truthy (vi_pi (h - real i', v, c, d)) then Some (Some (h - real i', v, c, d))
        else if truthy (vi_pi (h, v + real i', c, d)) then Some (Some (h, v + real i', c, d))
        else
          let st' = (if truthy (vi_pi (h, v - real i', c, d)) then (h, v - real i', c, d)
                     else st)
          in if real i' = max h v then Some None
             else searchLoop n vi_pi oldState st' i'))"

text \<open>
  The body of the main loop (lines 43 to 86) in its blocks. Lines 48 to 51, and again
  lines 89 to 92 after the loop: the speed traces of the state visited.
\<close>

definition recordSpeeds :: "ApproachMDP \<Rightarrow> rollout \<Rightarrow> py_error + rollout" where
  "recordSpeeds m r = (case state r of (h, v, c, d) \<Rightarrow>
     bind_e (getRho (env m) 0) (\<lambda>r0.
     bind_e (getRho (env m) h) (\<lambda>ra.
     bind_e (py_div r0 ra) (\<lambda>q.
       Inr (r\<lparr>EAS := EAS r @ [v], TAS := TAS r @ [q * v],
              velDist := velDist r @ [d / 1000]\<rparr>)))))"

text \<open>Lines 53 to 69: the flap markers and the line of the action taken.\<close>

definition recordAction :: "action \<Rightarrow> rollout \<Rightarrow> rollout" where
  "recordAction act r = (case state r of (h, v, c, d) \<Rightarrow>
     let r2 = (if act = Some ''extend''
               then r\<lparr>extensionD := extensionD r @ [d / 1000],
                      extensionA := extensionA r @ [h]\<rparr>
               else if act = Some ''retract''
               then r\<lparr>retractionD := retractionD r @ [d / 1000],
                      retractionA := retractionA r @ [h]\<rparr>
               else r)
     in if act = Some ''decel''
        then r2\<lparr>distDec := distDec r2 @ [d / 1000], altDec := altDec r2 @ [h]\<rparr>
        else if act = Some ''accel''
        then r2\<lparr>distAcc := distAcc r2 @ [d / 1000], altAcc := altAcc r2 @ [h]\<rparr>
        else r2\<lparr>dist_l := dist_l r2 @ [d / 1000], alt := alt r2 @ [h]\<rparr>)"

text \<open>
  Lines 71 to 82: a change of action. \<open>prevAction is not action\<close> compares
  objects; it is modelled as inequality of the values. Values that differ are
  different objects, so the branch is taken whenever the action changes; equal action
  names are taken to be one object, as interned strings and None are.
\<close>

definition recordChange :: "action \<Rightarrow> action \<Rightarrow> rollout \<Rightarrow> rollout" where
  "recordChange prevAction act r = (case state r of (h, v, c, d) \<Rightarrow>
     if prevAction \<noteq> act
     then (if prevAction = Some ''decel''
           then r\<lparr>distDec := distDec r @ [d / 1000], altDec := altDec r @ [h]\<rparr>
           else if prevAction = Some ''accel''
           then r\<lparr>distAcc := distAcc r @ [d / 1000], altAcc := altAcc r @ [h]\<rparr>
           else r\<lparr>dist_l := dist_l r @ [d / 1000], alt := alt r @ [h]\<rparr>)
     else r)"

text \<open>One iteration: the blocks, then the time step of lines 85 and 86.\<close>

definition loopBody :: "ApproachMDP \<Rightarrow> policy \<Rightarrow> rollout \<Rightarrow> py_error + rollout" where
  "loopBody m vi_pi r =
     (let prevAction = action r; act = vi_pi (state r) in
      bind_e (recordSpeeds m (r\<lparr>action := act\<rparr>)) (\<lambda>r1.
      let r3 = recordChange prevAction act (recordAction act r1) in
      bind_e (succAndProbReward m (state r) act) (\<lambda>outs.
      bind_e (py_index outs 0) (\<lambda>(st', prob, reward).
        Inr (r3\<lparr>state := st', fuelUsed := fuelUsed r3 - reward\<rparr>)))))"

text \<open>\<open>while state[3] > 0\<close>, with fuel: each iteration takes one unit.\<close>

fun whileLoop :: "nat \<Rightarrow> ApproachMDP \<Rightarrow> policy \<Rightarrow> rollout \<Rightarrow> (py_error + rollout) option" where
  "whileLoop 0 m vi_pi r =
     (if snd (snd (snd (state r))) > 0 then None else Some (Inr r))"
| "whileLoop (Suc n) m vi_pi r =
     (if snd (snd (snd (state r))) > 0
      then (case loopBody m vi_pi r of
              Inl err \<Rightarrow> Some (Inl err)
            | Inr r' \<Rightarrow> whileLoop n m vi_pi r')
      else Some (Inr r))"

text \<open>The last state is added once the loop has ended (lines 88 to 107).\<close>

definition finalRecord :: "ApproachMDP \<Rightarrow> rollout \<Rightarrow> py_error + rollout" where
  "finalRecord m r = (case state r of (h, v, c, d) \<Rightarrow>
     bind_e (recordSpeeds m r) (\<lambda>r1.
     Inr
       (if action r = Some ''extend''
        then r1\<lparr>extensionD := extensionD r1 @ [d / 1000], extensionA := extensionA r1 @ [h]\<rparr>
        else if action r = Some ''retract''
        then r1\<lparr>retractionD := retractionD r1 @ [d / 1000],
                retractionA := retractionA r1 @ [h]\<rparr>
        else if action r = Some ''decel''
        then r1\<lparr>distDec := distDec r1 @ [d / 1000], altDec := altDec r1 @ [h]\<rparr>
        else if action r = Some ''accel''
        then r1\<lparr>distAcc := distAcc r1 @ [d / 1000], altAcc := altAcc r1 @ [h]\<rparr>
        else r1\<lparr>dist_l := dist_l r1 @ [d / 1000], alt := alt r1 @ [h]\<rparr>)))"

text \<open>
  \<open>plotTrajectory\<close> up to the plotting. \<open>Some (Inr None)\<close>: no start state was
  found and the function returned early; \<open>Some (Inr (Some r))\<close>: the traces.
\<close>

definition plotTrajectory ::
  "nat \<Rightarrow> ApproachMDP \<Rightarrow> policy \<Rightarrow> state \<Rightarrow> (py_error + rollout option) option" where
  "plotTrajectory n m vi_pi st0 =
     (case (if vi_pi st0 = None then searchLoop n vi_pi st0 st0 0 else Some (Some st0)) of
        None \<Rightarrow> None
      | Some None \<Rightarrow> Some (Inr None)
      | Some (Some st) \<Rightarrow>
          (case whileLoop n m vi_pi (initRollout st (vi_pi st)) of
             None \<Rightarrow> None
           | Some (Inl err) \<Rightarrow> Some (Inl err)
           | Some (Inr r) \<Rightarrow>
               Some (case finalRecord m r of Inl err \<Rightarrow> Inl err | Inr r' \<Rightarrow> Inr (Some r'))))"

section \<open>MDPdemo.py\<close>

definition b737 :: aircraft where
  "b737 = \<lparr>mass = 55000, eta = 0.33, idleBurnRate = 600 / 3600,
           minSpeed = [90, 80, 70, 65], maxSpeed = [150, 115, 100, 90]\<rparr>"

definition mdp737 :: ApproachMDP where
  "mdp737 = \<lparr>env = ISA, ac = b737, altitude = 11000, speed = 105, config = 0,
             distance = 250000, FAFstate = (1000, 70, 3), dDist = 1\<rparr>"

section \<open>The two-step example\<close>

text \<open>
  The two-step trajectory of the specification's bucketing example, for the demo's
  aircraft: level flight first, then a deceleration onto the final approach fix.
\<close>

definition twoStepPolicy :: policy where
  "twoStepPolicy = [(1000, 75, 3, 2000) \<mapsto> ''level'', (1000, 75, 3, 1000) \<mapsto> ''decel'']"

text \<open>
  A second two-step trajectory: a flap extension first, then level flight.
\<close>

definition extendLevelPolicy :: policy where
  "extendLevelPolicy = [(1000, 75, 2, 2000) \<mapsto> ''extend'', (1000, 75, 3, 1000) \<mapsto> ''level'']"

section \<open>Properties of the Python operators\<close>

lemma bind_e_Inl: "bind_e (Inl err) f = Inl err"
  by (simp add: bind_e_def)

lemma bind_e_Inr: "bind_e (Inr v) f = f v"
  by (simp add: bind_e_def)

lemma bind_e_eq_Inr:
  "bind_e x f = Inr y \<longleftrightarrow> (\<exists>v. x = Inr v \<and> f v = Inr y)"
  by (cases x) (simp_all add: bind_e_def)

lemma py_div_Inr: "y \<noteq> 0 \<Longrightarrow> py_div x y = Inr (x / y)"
  by (simp add: py_div_def)

lemma py_pow_half: "0 < x \<Longrightarrow> py_pow x 0.5 = Inr (sqrt x)"
  by (simp add: py_pow_def powr_half_sqrt)

section \<open>Properties of the atmosphere and the aircraft\<close>

lemma ISA_getRho_0: "getRho ISA 0 = Inr 1.225"
  by (simp add: ISA_def ISA_getRho_def ISA_getRho_low_def ISA_h_t_def ISA_rho_0_def
      py_pow_def bind_e_def)

lemma ISA_getRho_low_pos:
  assumes "- 44330 \<le> h"
  shows "\<exists>ra. ISA_getRho_low h = Inr ra \<and> 0 < ra"
proof -
  define base where "base = 1 - ISA_L_b * h / ISA_T_0"
  define ex where "ex = 1 + ISA_g * ISA_M_g / ISA_R / ISA_L_b"
  have b: "0 < base"
    using assms by (simp add: base_def ISA_L_b_def ISA_T_0_def field_simps)
  then have "py_pow base ex = Inr (base powr ex)"
    by (simp add: py_pow_def)
  then have "ISA_getRho_low h = Inr (ISA_rho_0 * base powr ex)"
    unfolding ISA_getRho_low_def base_def ex_def by (simp only: bind_e_Inr)
  moreover have "0 < ISA_rho_0 * base powr ex"
    using b by (simp add: ISA_rho_0_def)
  ultimately show ?thesis by blast
qed

lemma ISA_getRho_pos:
  assumes "- 44330 \<le> h"
  shows "\<exists>ra. getRho ISA h = Inr ra \<and> 0 < ra"
proof (cases "h > ISA_h_t")
  case True
  obtain rt where rt: "ISA_getRho_low ISA_h_t = Inr rt" "0 < rt"
    using ISA_getRho_low_pos[of ISA_h_t] by (auto simp: ISA_h_t_def)
  have t: "ISA_getT h \<noteq> 0"
    using True by (simp add: ISA_getT_def ISA_T_0_def ISA_L_b_def ISA_h_t_def)
  have "getRho ISA h = Inr (rt * exp ((- ISA_g * ISA_M_g * (h - ISA_h_t) / ISA_R) / ISA_getT h))"
    using True t by (simp add: ISA_def ISA_getRho_def rt(1) bind_e_Inr py_div_def)
  moreover have "0 < rt * exp ((- ISA_g * ISA_M_g * (h - ISA_h_t) / ISA_R) / ISA_getT h)"
    using rt(2) by simp
  ultimately show ?thesis by blast
next
  case False
  then show ?thesis
    using ISA_getRho_low_pos[OF assms] by (simp add: ISA_def ISA_getRho_def)
qed

lemma cDp_positive: "\<forall>x \<in> set aircraft_cDp. 0 < x"
  by (simp add: aircraft_cDp_def)

lemma py_index_cDp:
  assumes "- 5 \<le> c" and "c < 5"
  shows "\<exists>cdp. py_index aircraft_cDp c = Inr cdp \<and> 0 < cdp"
proof -
  have len: "length aircraft_cDp = 5"
    by (simp add: aircraft_cDp_def)
  define k where "k = (if c < 0 then nat (5 + c) else nat c)"
  have "k < length aircraft_cDp"
    using assms len by (auto simp: k_def)
  then have "aircraft_cDp ! k \<in> set aircraft_cDp"
    by (rule nth_mem)
  then have "0 < aircraft_cDp ! k"
    using cDp_positive by blast
  moreover have "py_index aircraft_cDp c = Inr (aircraft_cDp ! k)"
    using assms by (simp add: py_index_def len k_def)
  ultimately show ?thesis by blast
qed

lemma getcL_value:
  assumes "getRho en 0 = Inr r0" and "r0 \<noteq> 0" and "v \<noteq> 0"
  shows "getcL a (h, v, c, d) en =
           Inr (g en * mass a / (0.5 * r0 * v\<^sup>2 * (aircraft_b\<^sup>2 / aircraft_AR)))"
  using assms
  by (simp add: getcL_def bind_e_Inr py_div_def aircraft_b_def aircraft_AR_def)

lemma getcL_altitude: "getcL a (h', v, c', d') en = getcL a (h, v, c, d) en"
  by (simp add: getcL_def)

lemma getcD_value:
  assumes "getcL a (h, v, c, d) en = Inr cL" and "py_index aircraft_cDp c = Inr cdp"
  shows "getcD a (h, v, c, d) en = Inr (cdp + cL\<^sup>2 / (aircraft_e * aircraft_AR * pi))"
  using assms by (simp add: getcD_def bind_e_Inr)

lemma getD_value:
  assumes "getcD a (h, v, c, d) en = Inr cD" and "getRho en 0 = Inr r0"
  shows "getD a (h, v, c, d) en = Inr (0.5 * r0 * v\<^sup>2 * cD * aircraft_b\<^sup>2 / aircraft_AR)"
  using assms by (simp add: getD_def bind_e_Inr)

section \<open>Properties of the cost and the transitions\<close>

lemma getCost_value:
  assumes r0: "getRho (env m) 0 = Inr r0" and ra: "getRho (env m) h = Inr ra"
    and pos: "0 < r0" "0 < ra" "0 < v"
    and cL: "getcL (ac m) (h, v, c, d) (env m) = Inr cL"
    and cD: "getcD (ac m) (h, v, c, d) (env m) = Inr cD" "cD \<noteq> 0"
    and drag: "getD (ac m) (h, v, c, d) (env m) = Inr drag"
    and eta: "eta (ac m) \<noteq> 0"
  shows "getCost m (h, v, c, d) act =
     Inr (max ((mass (ac m) * g (env m) *
                  ((if act = Some ''climb'' then h + dA m
                    else if act = Some ''descend'' then h - getDescend m (h, v, c, d)
                    else h) - h)
               + dD m * sqrt (ra / r0) * drag
               + 0.5 * mass (ac m) *
                  ((if act = Some ''accel'' then v * sqrt (r0 / ra) + dS m
                    else if act = Some ''decel'' then v * sqrt (r0 / ra) - getDecel m (h, v, c, d)
                    else v * sqrt (r0 / ra))\<^sup>2 - (v * sqrt (r0 / ra))\<^sup>2))
              / eta (ac m) / kFuel m)
             (idleBurnRate (ac m) * dD m / (v * sqrt (r0 / ra))))"
proof -
  have q: "py_div r0 ra = Inr (r0 / ra)" "py_div ra r0 = Inr (ra / r0)"
    using pos by (simp_all add: py_div_def)
  have sq: "py_pow (r0 / ra) 0.5 = Inr (sqrt (r0 / ra))" "py_pow (ra / r0) 0.5 = Inr (sqrt (ra / r0))"
    by (rule py_pow_half, simp add: pos)+
  have tas: "v * sqrt (r0 / ra) \<noteq> 0"
    using pos by simp
  have d1: "py_div cL cD = Inr (cL / cD)"
    using cD(2) by (simp add: py_div_def)
  have d2: "\<And>x. py_div x (v * sqrt (r0 / ra)) = Inr (x / (v * sqrt (r0 / ra)))"
    using tas by (simp only: py_div_def if_False)
  have d3: "\<And>x. py_div x (eta (ac m)) = Inr (x / eta (ac m))"
    using eta by (simp add: py_div_def)
  show ?thesis
    unfolding getCost_def prod.case r0 ra bind_e_Inr q sq Let_def cL cD(1) drag d1 d2 d3
    by (simp add: algebra_simps)
qed

lemma succ_flight:
  assumes "0 < d"
  shows "succAndProbReward m (h, v, c, d) act =
     bind_e (getCost m (h, v, c, d) act) (\<lambda>cost.
       if act = Some ''climb'' then
          Inr [((h - dA m, v, c, d - dD m), 0.8, - cost),
               ((h - dA m + 10, v, c, d - dD m), 0.1, - cost),
               ((h - dA m - 10, v, c, d - dD m), 0.1, - cost)]
       else if act = Some ''descend'' then
          Inr [((h - dA m, v, c, d - dD m), 0.8, - cost),
               ((h - dA m + 1, v, c, d - dD m), 0.1, - cost),
               ((h - dA m - 1, v, c, d - dD m), 0.1, - cost)]
       else if act = Some ''extend'' then
         Inr [((h, v, c + 1, d - dD m), 0.95, - cost), ((h, v, c, d - dD m), 0.05, - cost)]
       else if act = Some ''retract'' then
         Inr [((h, v, c - 1, d - dD m), 0.95, - cost), ((h, v, c, d - dD m), 0.05, - cost)]
       else if act = Some ''accel'' then
          Inr [((h, v + dS m, c, d - dD m), 0.8, - cost),
               ((h, v + dS m + 1, c, d - dD m), 0.1, - cost),
               ((h, v + dS m - 1, c, d - dD m), 0.1, - cost)]
       else if act = Some ''decel'' then
          Inr [((h, v - dS m, c, d - dD m), 0.8, - cost),
               ((h, v - dS m + 1, c, d - dD m), 0.1, - cost),
               ((h, v - dS m - 1, c, d - dD m), 0.1, - cost)]
       else Inr [((h, v, c, d - dD m), 1, - cost)])"
proof -
  have "(h, v, c, d) \<noteq> terminalState m"
    using assms by (auto simp: terminalState_def split: prod.splits)
  then show ?thesis
    using assms by (simp add: succAndProbReward_def Let_def getDescend_def getDecel_def cong del: if_weak_cong)
qed

lemma succ_nonempty:
  assumes "0 < d" and "succAndProbReward m (h, v, c, d) act = Inr outs"
  shows "outs \<noteq> []"
  using assms(2) unfolding succ_flight[OF assms(1)] bind_e_eq_Inr
  by (auto split: if_splits)

lemma succ_outcomes:
  assumes "0 < d" and "getCost m (h, v, c, d) act = Inr cost"
  shows "\<exists>outs. succAndProbReward m (h, v, c, d) act = Inr outs \<and>
                sum_list (map (\<lambda>out. fst (snd out)) outs) = 1 \<and>
                (\<forall>out \<in> set outs. snd (snd out) = - cost \<and>
                   snd (snd (snd (fst out))) = d - dD m)"
proof -
  consider "act = Some ''climb''" | "act = Some ''descend''" | "act = Some ''extend''"
    | "act = Some ''retract''" | "act = Some ''accel''" | "act = Some ''decel''"
    | "act \<noteq> Some ''climb''" "act \<noteq> Some ''descend''" "act \<noteq> Some ''extend''"
      "act \<noteq> Some ''retract''" "act \<noteq> Some ''accel''" "act \<noteq> Some ''decel''"
    by blast
  then show ?thesis
  proof cases
    case 1
    show ?thesis
      unfolding succ_flight[OF assms(1)] assms(2) bind_e_Inr by (simp add: 1)
  next
    case 2
    show ?thesis
      unfolding succ_flight[OF assms(1)] assms(2) bind_e_Inr by (simp add: 2)
  next
    case 3
    show ?thesis
      unfolding succ_flight[OF assms(1)] assms(2) bind_e_Inr by (simp add: 3)
  next
    case 4
    show ?thesis
      unfolding succ_flight[OF assms(1)] assms(2) bind_e_Inr by (simp add: 4)
  next
    case 5
    show ?thesis
      unfolding succ_flight[OF assms(1)] assms(2) bind_e_Inr by (simp add: 5)
  next
    case 6
    show ?thesis
      unfolding succ_flight[OF assms(1)] assms(2) bind_e_Inr by (simp add: 6)
  next
    case 7
    show ?thesis
      unfolding succ_flight[OF assms(1)] assms(2) bind_e_Inr by (simp add: 7)
  qed
qed

lemma succ_error:
  assumes "0 < d" and "getCost m (h, v, c, d) act = Inl err"
  shows "succAndProbReward m (h, v, c, d) act = Inl err"
  unfolding succ_flight[OF assms(1)] assms(2) by (rule bind_e_Inl)

lemma getCost_defined:
  assumes r0: "getRho (env m) 0 = Inr r0" and ra: "getRho (env m) h = Inr ra"
    and pos: "0 < r0" "0 < ra" "0 < v"
    and c: "- 5 \<le> c" "c < 5"
    and eta: "eta (ac m) \<noteq> 0"
  shows "\<exists>drag. getD (ac m) (h, v, c, d) (env m) = Inr drag \<and>
    getCost m (h, v, c, d) act =
     Inr (max ((mass (ac m) * g (env m) *
                  ((if act = Some ''climb'' then h + dA m
                    else if act = Some ''descend'' then h - getDescend m (h, v, c, d)
                    else h) - h)
               + dD m * sqrt (ra / r0) * drag
               + 0.5 * mass (ac m) *
                  ((if act = Some ''accel'' then v * sqrt (r0 / ra) + dS m
                    else if act = Some ''decel'' then v * sqrt (r0 / ra) - getDecel m (h, v, c, d)
                    else v * sqrt (r0 / ra))\<^sup>2 - (v * sqrt (r0 / ra))\<^sup>2))
              / eta (ac m) / kFuel m)
             (idleBurnRate (ac m) * dD m / (v * sqrt (r0 / ra))))"
proof -
  obtain cdp where cdp: "py_index aircraft_cDp c = Inr cdp" "0 < cdp"
    using py_index_cDp[OF c] by blast
  define cL where "cL = g (env m) * mass (ac m) / (0.5 * r0 * v\<^sup>2 * (aircraft_b\<^sup>2 / aircraft_AR))"
  have cL: "getcL (ac m) (h, v, c, d) (env m) = Inr cL"
    unfolding cL_def using r0 pos by (intro getcL_value) simp_all
  define cD where "cD = cdp + cL\<^sup>2 / (aircraft_e * aircraft_AR * pi)"
  have cD: "getcD (ac m) (h, v, c, d) (env m) = Inr cD"
    unfolding cD_def by (rule getcD_value[OF cL cdp(1)])
  have "0 \<le> cL\<^sup>2 / (aircraft_e * aircraft_AR * pi)"
    by (simp add: aircraft_e_def aircraft_AR_def)
  then have cD0: "cD \<noteq> 0"
    using cdp(2) by (simp add: cD_def)
  have drag: "getD (ac m) (h, v, c, d) (env m) = Inr (0.5 * r0 * v\<^sup>2 * cD * aircraft_b\<^sup>2 / aircraft_AR)"
    by (rule getD_value[OF cD r0])
  show ?thesis
    using getCost_value[OF r0 ra pos cL cD cD0 drag eta] drag by blast
qed

text \<open>The demo's aircraft and MDP at sea level: the cost of any action is defined.\<close>

lemma getCost_mdp737_sea_level:
  assumes "0 < v" and "- 5 \<le> c" and "c < 5"
  shows "\<exists>cost. getCost mdp737 (0, v, c, d) act = Inr cost"
proof -
  have e: "getRho (env mdp737) 0 = Inr 1.225"
    using ISA_getRho_0 by (simp add: mdp737_def)
  have "eta (ac mdp737) \<noteq> 0"
    by (simp add: mdp737_def b737_def)
  from getCost_defined[OF e e _ _ assms this, of d act] show ?thesis
    by auto
qed

section \<open>The specified properties\<close>

text \<open>
  C1. \<open>succAndProbReward\<close> returns the empty list exactly when the state is the
  terminal state (the FAF altitude, speed and configuration at distance 0). A state
  with distance at most 0 that is not the terminal state has one outcome: the
  terminal state, with probability 1, its reward the negated penalty
  \<open>10000 * (10000000 * (altitude mismatch)\<^sup>2 + 10000000 * (speed mismatch)\<^sup>2)
  + 100000000 * |configuration mismatch|\<close>.
\<close>

theorem succAndProbReward_terminal_overshoot:
  assumes "FAFstate m = (fh, fv, fc)"
  shows "(succAndProbReward m (h, v, c, d) act = Inr [] \<longleftrightarrow> (h, v, c, d) = (fh, fv, fc, 0)) \<and>
         (d \<le> 0 \<and> (h, v, c, d) \<noteq> (fh, fv, fc, 0) \<longrightarrow>
            succAndProbReward m (h, v, c, d) act =
              Inr [((fh, fv, fc, 0), 1,
                    - (10000 * (10000000 * (h - fh)\<^sup>2 + 10000000 * (v - fv)\<^sup>2)
                       + 100000000 * \<bar>real_of_int c - real_of_int fc\<bar>))])"
proof -
  have t: "terminalState m = (fh, fv, fc, 0)"
    using assms by (simp add: terminalState_def)
  have over: "d \<le> 0 \<Longrightarrow> (h, v, c, d) \<noteq> (fh, fv, fc, 0) \<Longrightarrow>
      succAndProbReward m (h, v, c, d) act =
              Inr [((fh, fv, fc, 0), 1,
                    - (10000 * (10000000 * (h - fh)\<^sup>2 + 10000000 * (v - fv)\<^sup>2)
                       + 100000000 * \<bar>real_of_int c - real_of_int fc\<bar>))]"
    using assms by (simp add: succAndProbReward_def t overshootCost_def)
  have tm: "succAndProbReward m (fh, fv, fc, 0) act = Inr []"
    by (simp add: succAndProbReward_def t)
  have "(h, v, c, d) = (fh, fv, fc, 0)" if e: "succAndProbReward m (h, v, c, d) act = Inr []"
  proof (rule ccontr)
    assume ne: "(h, v, c, d) \<noteq> (fh, fv, fc, 0)"
    show False
    proof (cases "d \<le> 0")
      case True
      from over[OF True ne] e show False by simp
    next
      case False
      then have "0 < d" by simp
      from succ_nonempty[OF this e] show False by simp
    qed
  qed
  with tm over show ?thesis by blast
qed

theorem succAndProbReward_terminal_overshoot_witness:
  "FAFstate mdp737 = (1000, 70, 3) \<and>
   succAndProbReward mdp737 (1000, 70, 3, 0) (Some ''level'') = Inr [] \<and>
   succAndProbReward mdp737 (1200, 75, 2, 0) (Some ''level'') \<noteq> Inr [] \<and>
   succAndProbReward mdp737 (1200, 75, 2, 0) (Some ''level'') =
     Inr [((1000, 70, 3, 0), 1, - 4002500100000000)]"
proof -
  have f: "FAFstate mdp737 = (1000, 70, 3)"
    by (simp add: mdp737_def)
  show ?thesis
    using f succAndProbReward_terminal_overshoot[OF f, of 1000 70 3 0 "Some ''level''"]
      succAndProbReward_terminal_overshoot[OF f, of 1200 75 2 0 "Some ''level''"]
    by simp
qed

text \<open>
  C2. For a state with distance greater than 0: when the cost of the pair of state
  and action is computed, \<open>succAndProbReward\<close> returns a list whose probabilities
  sum to 1 (over the reals) and whose outcomes all carry the negated cost as reward;
  when computing the cost raises, so does \<open>succAndProbReward\<close>.
\<close>

theorem succAndProbReward_probabilities_rewards:
  assumes "0 < d"
  shows "case getCost m (h, v, c, d) act of
           Inl err \<Rightarrow> succAndProbReward m (h, v, c, d) act = Inl err
         | Inr cost \<Rightarrow>
             (\<exists>outs. succAndProbReward m (h, v, c, d) act = Inr outs \<and>
                sum_list (map (\<lambda>out. fst (snd out)) outs) = 1 \<and>
                (\<forall>out \<in> set outs. snd (snd out) = - cost))"
proof (cases "getCost m (h, v, c, d) act")
  case (Inl err)
  then show ?thesis
    using succ_error[OF assms Inl] by simp
next
  case (Inr cost)
  then show ?thesis
    using succ_outcomes[OF assms Inr] by auto
qed

theorem succAndProbReward_probabilities_rewards_witness:
  "(0::real) < 1000 \<and>
   (\<exists>cost outs. getCost mdp737 (0, 70, 0, 1000) (Some ''climb'') = Inr cost \<and>
      succAndProbReward mdp737 (0, 70, 0, 1000) (Some ''climb'') = Inr outs \<and>
      sum_list (map (\<lambda>out. fst (snd out)) outs) = 1 \<and>
      list_all (\<lambda>out. snd (snd out) = - cost) outs)"
proof -
  obtain cost where cost: "getCost mdp737 (0, 70, 0, 1000) (Some ''climb'') = Inr cost"
    using getCost_mdp737_sea_level[of 70 0 1000 "Some ''climb''"] by auto
  show ?thesis
    using succAndProbReward_probabilities_rewards[of 1000 mdp737 0 70 0 "Some ''climb''"]
    by (auto simp: cost list_all_iff)
qed

text \<open>
  C4. Where the density is defined and positive at sea level and at the state's
  altitude, the speed is positive, the configuration indexes the parasite drag list and
  the efficiency is not zero, \<open>getCost\<close> returns
  \<open>max (Ereq / eta / kFuel) (idleBurnRate * dD / TAS)\<close> with
  \<open>TAS = speed * sqrt (rho 0 / rho altitude)\<close>,
  \<open>EdD = dD * sqrt (rho altitude / rho 0)\<close>, the altitude and true airspeed after
  the action as the action sets them, and
  \<open>Ereq = mass * g * (altAfter - altitude) + EdD * drag + 0.5 * mass * (TASafter\<^sup>2 - TAS\<^sup>2)\<close>,
  where drag is what \<open>getD\<close> returns. The cost is at least the idle floor, and it is
  not negative when the idle burn rate and the step are not negative.
\<close>

theorem getCost_formula_and_floor:
  assumes r0: "getRho (env m) 0 = Inr r0" and ra: "getRho (env m) h = Inr ra"
    and pos: "0 < r0" "0 < ra" "0 < v"
    and c: "- 5 \<le> c" "c < 5"
    and eta: "eta (ac m) \<noteq> 0"
  shows "\<exists>drag. getD (ac m) (h, v, c, d) (env m) = Inr drag \<and>
    (let tas = v * sqrt (r0 / ra);
         EdD = dD m * sqrt (ra / r0);
         altAfter = (if act = Some ''climb'' then h + dA m
                     else if act = Some ''descend'' then h - getDescend m (h, v, c, d)
                     else h);
         tasAfter = (if act = Some ''accel'' then tas + dS m
                     else if act = Some ''decel'' then tas - getDecel m (h, v, c, d)
                     else tas);
         Ereq = mass (ac m) * g (env m) * (altAfter - h) + EdD * drag
                + 0.5 * mass (ac m) * (tasAfter\<^sup>2 - tas\<^sup>2);
         idle = idleBurnRate (ac m) * dD m / tas;
         cost = max (Ereq / eta (ac m) / kFuel m) idle
     in getCost m (h, v, c, d) act = Inr cost \<and> idle \<le> cost \<and>
        (0 \<le> idleBurnRate (ac m) \<and> 0 \<le> dDist m \<longrightarrow> 0 \<le> cost))"
proof -
  obtain drag where drag: "getD (ac m) (h, v, c, d) (env m) = Inr drag"
    and cost: "getCost m (h, v, c, d) act =
     Inr (max ((mass (ac m) * g (env m) *
                  ((if act = Some ''climb'' then h + dA m
                    else if act = Some ''descend'' then h - getDescend m (h, v, c, d)
                    else h) - h)
               + dD m * sqrt (ra / r0) * drag
               + 0.5 * mass (ac m) *
                  ((if act = Some ''accel'' then v * sqrt (r0 / ra) + dS m
                    else if act = Some ''decel'' then v * sqrt (r0 / ra) - getDecel m (h, v, c, d)
                    else v * sqrt (r0 / ra))\<^sup>2 - (v * sqrt (r0 / ra))\<^sup>2))
              / eta (ac m) / kFuel m)
             (idleBurnRate (ac m) * dD m / (v * sqrt (r0 / ra))))"
    using getCost_defined[OF assms] by blast
  have tas: "0 < v * sqrt (r0 / ra)"
    using pos by simp
  have idle: "0 \<le> idleBurnRate (ac m) \<Longrightarrow> 0 \<le> dDist m \<Longrightarrow>
      0 \<le> idleBurnRate (ac m) * dD m / (v * sqrt (r0 / ra))"
    using tas by (simp add: dD_def)
  show ?thesis
    apply (rule exI[of _ drag])
    unfolding Let_def cost
    using drag idle by (simp add: le_max_iff_disj)
qed

theorem getCost_formula_and_floor_witness:
  "\<exists>cost. getCost mdp737 (0, 70, 0, 1000) (Some ''climb'') = Inr cost \<and>
      600 / 3600 * 1000 / 70 \<le> cost \<and> 0 \<le> cost"
proof -
  have e: "getRho (env mdp737) 0 = Inr 1.225"
    using ISA_getRho_0 by (simp add: mdp737_def)
  have p: "(0::real) < 1.225" "(0::real) < 70" "- 5 \<le> (0::int)" "(0::int) < 5"
    by simp_all
  have eta: "eta (ac mdp737) \<noteq> 0"
    by (simp add: mdp737_def b737_def)
  obtain cost where c: "getCost mdp737 (0, 70, 0, 1000) (Some ''climb'') = Inr cost"
    "idleBurnRate (ac mdp737) * dD mdp737 / (70 * sqrt (1.225 / 1.225)) \<le> cost"
    "0 \<le> idleBurnRate (ac mdp737) \<and> 0 \<le> dDist mdp737 \<longrightarrow> 0 \<le> cost"
    using getCost_formula_and_floor[OF e e p(1) p(1) p(2) p(3) p(4) eta, of 1000 "Some ''climb''"]
    unfolding Let_def by blast
  have i: "idleBurnRate (ac mdp737) * dD mdp737 / (70 * sqrt (1.225 / 1.225))
           = 600 / 3600 * 1000 / 70"
    by (simp add: mdp737_def b737_def dD_def)
  have n: "0 \<le> idleBurnRate (ac mdp737) \<and> 0 \<le> dDist mdp737"
    by (simp add: mdp737_def b737_def)
  from c(2) have "600 / 3600 * 1000 / 70 \<le> cost"
    unfolding i .
  moreover from c(3) n have "0 \<le> cost"
    by blast
  ultimately show ?thesis
    using c(1) by blast
qed

text \<open>
  C7. For a speed other than 0, \<open>getcL\<close> returns
  \<open>g * mass / (0.5 * rho 0 * speed\<^sup>2 * (b\<^sup>2 / AR))\<close>: with the ISA atmosphere of
  the repository, whose sea level density is 1.225, and with any atmosphere whose sea
  level density is defined and not 0. The density is read at altitude 0, so the result
  does not depend on the altitude of the state.
\<close>

theorem getcL_sea_level_density:
  "(v \<noteq> 0 \<longrightarrow>
      getcL a (h, v, c, d) ISA =
        Inr (ISA_g * mass a / (0.5 * 1.225 * v\<^sup>2 * (aircraft_b\<^sup>2 / aircraft_AR)))) \<and>
   (\<forall>r0. getRho en 0 = Inr r0 \<and> r0 \<noteq> 0 \<and> v \<noteq> 0 \<longrightarrow>
      getcL a (h, v, c, d) en =
        Inr (g en * mass a / (0.5 * r0 * v\<^sup>2 * (aircraft_b\<^sup>2 / aircraft_AR)))) \<and>
   getcL a (h', v, c, d) en = getcL a (h, v, c, d) en"
proof -
  have g: "g ISA = ISA_g"
    by (simp add: ISA_def)
  have "getcL a (h, v, c, d) ISA =
        Inr (ISA_g * mass a / (0.5 * 1.225 * v\<^sup>2 * (aircraft_b\<^sup>2 / aircraft_AR)))" if "v \<noteq> 0"
    using getcL_value[OF ISA_getRho_0 _ that, of a h c d] unfolding g by simp
  moreover have "getcL a (h, v, c, d) en =
        Inr (g en * mass a / (0.5 * r0 * v\<^sup>2 * (aircraft_b\<^sup>2 / aircraft_AR)))"
    if "getRho en 0 = Inr r0 \<and> r0 \<noteq> 0 \<and> v \<noteq> 0" for r0
    using that getcL_value[of en r0 v a h c d] by blast
  moreover have "getcL a (h', v, c, d) en = getcL a (h, v, c, d) en"
    by (rule getcL_altitude)
  ultimately show ?thesis by blast
qed

theorem getcL_sea_level_density_witness:
  "(70::real) \<noteq> 0 \<and> getRho ISA 0 = Inr 1.225 \<and> (1.225::real) \<noteq> 0 \<and>
   getcL b737 (11000, 70, 0, 250000) ISA =
     Inr (ISA_g * 55000 / (0.5 * 1.225 * 70\<^sup>2 * (aircraft_b\<^sup>2 / aircraft_AR))) \<and>
   getcL b737 (0, 70, 0, 250000) ISA = getcL b737 (11000, 70, 0, 250000) ISA"
proof -
  have m: "mass b737 = 55000"
    by (simp add: b737_def)
  show ?thesis
    using getcL_sea_level_density[of 70 b737 11000 0 250000 ISA 0] ISA_getRho_0
    unfolding m by simp
qed

lemma actions_sets:
  assumes "actions m (h, v, c, d) = Inr acts"
  shows "set acts =
     {''climb'', ''level''}
     \<union> {x. x = ''retract'' \<and> c > 0 \<and>
            (\<exists>lo. py_index (minSpeed (ac m)) (c - 1) = Inr lo \<and> lo \<le> v)}
     \<union> {x. x = ''extend'' \<and> c < int (length (minSpeed (ac m))) - 1 \<and>
            (\<exists>hi. py_index (maxSpeed (ac m)) (c + 1) = Inr hi \<and> v \<le> hi)}
     \<union> {x. x = ''descend'' \<and> h > getDescend m (h, v, c, d)}
     \<union> {x. x = ''decel'' \<and>
            (\<exists>lo. py_index (minSpeed (ac m)) c = Inr lo \<and> lo + getDecel m (h, v, c, d) \<le> v)}
     \<union> {x. x = ''accel'' \<and>
            (\<exists>hi. py_index (maxSpeed (ac m)) c = Inr hi \<and> v \<le> hi - dS m)}"
proof -
  from assms obtain as1 as2 lo hi where
    a1: "(if c > 0
          then bind_e (py_index (minSpeed (ac m)) (c - 1)) (\<lambda>lo.
                 Inr (if v \<ge> lo then [''climb'', ''level''] @ [''retract'']
                      else [''climb'', ''level'']))
          else Inr [''climb'', ''level'']) = Inr as1"
    and a2: "(if c < int (length (minSpeed (ac m))) - 1
          then bind_e (py_index (maxSpeed (ac m)) (c + 1)) (\<lambda>hi.
                 Inr (if v \<le> hi then as1 @ [''extend''] else as1))
          else Inr as1) = Inr as2"
    and lo: "py_index (minSpeed (ac m)) c = Inr lo"
    and hi: "py_index (maxSpeed (ac m)) c = Inr hi"
    and acts: "acts =
       (if v \<le> hi - dS m
        then (if v \<ge> lo + getDecel m (h, v, c, d)
              then (if h > getDescend m (h, v, c, d) then as2 @ [''descend''] else as2) @ [''decel'']
              else (if h > getDescend m (h, v, c, d) then as2 @ [''descend''] else as2)) @ [''accel'']
        else (if v \<ge> lo + getDecel m (h, v, c, d)
              then (if h > getDescend m (h, v, c, d) then as2 @ [''descend''] else as2) @ [''decel'']
              else (if h > getDescend m (h, v, c, d) then as2 @ [''descend''] else as2)))"
    unfolding actions_def prod.case bind_e_eq_Inr Let_def by (auto simp del: append.simps)
  have s1: "set as1 = {''climb'', ''level''}
     \<union> {x. x = ''retract'' \<and> c > 0 \<and>
            (\<exists>lo. py_index (minSpeed (ac m)) (c - 1) = Inr lo \<and> lo \<le> v)}"
    using a1 by (auto simp: bind_e_eq_Inr split: if_splits)
  have s2: "set as2 = set as1
     \<union> {x. x = ''extend'' \<and> c < int (length (minSpeed (ac m))) - 1 \<and>
            (\<exists>hi. py_index (maxSpeed (ac m)) (c + 1) = Inr hi \<and> v \<le> hi)}"
    using a2 by (auto simp: bind_e_eq_Inr split: if_splits)
  have s3: "set acts = set as2
     \<union> {x. x = ''descend'' \<and> h > getDescend m (h, v, c, d)}
     \<union> {x. x = ''decel'' \<and> lo + getDecel m (h, v, c, d) \<le> v}
     \<union> {x. x = ''accel'' \<and> v \<le> hi - dS m}"
    unfolding acts by auto
  show ?thesis
    unfolding s3 s2 s1 lo hi by auto
qed

lemma py_index_valid:
  "0 \<le> i \<Longrightarrow> i < int (length xs) \<Longrightarrow> py_index xs i = Inr (xs ! nat i)"
  by (simp add: py_index_def)

lemma actions_defined:
  assumes "0 \<le> c" and "c < int (length (minSpeed (ac m)))"
    and "length (maxSpeed (ac m)) = length (minSpeed (ac m))"
  shows "\<exists>acts. actions m (h, v, c, d) = Inr acts"
proof -
  have i1: "py_index (minSpeed (ac m)) c = Inr (minSpeed (ac m) ! nat c)"
    using assms by (intro py_index_valid) simp_all
  have i2: "py_index (maxSpeed (ac m)) c = Inr (maxSpeed (ac m) ! nat c)"
    using assms by (intro py_index_valid) simp_all
  have i3: "c > 0 \<Longrightarrow>
      py_index (minSpeed (ac m)) (c - 1) = Inr (minSpeed (ac m) ! nat (c - 1))"
    using assms by (intro py_index_valid) simp_all
  have i4: "c < int (length (minSpeed (ac m))) - 1 \<Longrightarrow>
      py_index (maxSpeed (ac m)) (c + 1) = Inr (maxSpeed (ac m) ! nat (c + 1))"
    using assms by (intro py_index_valid) simp_all
  show ?thesis
    unfolding actions_def prod.case Let_def i1 i2 bind_e_Inr
    by (cases "c > 0"; cases "c < int (length (minSpeed (ac m))) - 1")
       (simp_all add: i3 i4 bind_e_Inr)
qed

text \<open>
  C6. The list \<open>actions\<close> returns holds climb and level always, retract exactly when
  the configuration is above 0 and the speed is at least \<open>minSpeed[c-1]\<close>, extend
  exactly when the configuration is below the last index of \<open>minSpeed\<close> and the speed
  is at most \<open>maxSpeed[c+1]\<close>, descend exactly when the altitude exceeds the descend
  step, decel exactly when the speed is at least \<open>minSpeed[c]\<close> plus the decel step,
  accel exactly when the speed is at most \<open>maxSpeed[c]\<close> minus the accel step, and
  nothing else. A list is returned for every configuration that indexes both speed
  lists.
\<close>

theorem actions_legal:
  "(0 \<le> c \<and> c < int (length (minSpeed (ac m))) \<and>
    length (maxSpeed (ac m)) = length (minSpeed (ac m))
      \<longrightarrow> (\<exists>acts. actions m (h, v, c, d) = Inr acts)) \<and>
   (\<forall>acts. actions m (h, v, c, d) = Inr acts \<longrightarrow>
      ''climb'' \<in> set acts \<and> ''level'' \<in> set acts \<and>
      (''retract'' \<in> set acts \<longleftrightarrow>
         c > 0 \<and> (\<exists>lo. py_index (minSpeed (ac m)) (c - 1) = Inr lo \<and> v \<ge> lo)) \<and>
      (''extend'' \<in> set acts \<longleftrightarrow>
         c < int (length (minSpeed (ac m))) - 1 \<and>
         (\<exists>hi. py_index (maxSpeed (ac m)) (c + 1) = Inr hi \<and> v \<le> hi)) \<and>
      (''descend'' \<in> set acts \<longleftrightarrow> h > getDescend m (h, v, c, d)) \<and>
      (''decel'' \<in> set acts \<longleftrightarrow>
         (\<exists>lo. py_index (minSpeed (ac m)) c = Inr lo \<and> v \<ge> lo + getDecel m (h, v, c, d))) \<and>
      (''accel'' \<in> set acts \<longleftrightarrow>
         (\<exists>hi. py_index (maxSpeed (ac m)) c = Inr hi \<and> v \<le> hi - dS m)) \<and>
      set acts \<subseteq> {''climb'', ''level'', ''retract'', ''extend'', ''descend'', ''decel'', ''accel''})"
proof (intro conjI impI allI)
  assume "0 \<le> c \<and> c < int (length (minSpeed (ac m))) \<and>
    length (maxSpeed (ac m)) = length (minSpeed (ac m))"
  then show "\<exists>acts. actions m (h, v, c, d) = Inr acts"
    using actions_defined by blast
next
  fix acts assume a: "actions m (h, v, c, d) = Inr acts"
  show "''climb'' \<in> set acts"
    unfolding actions_sets[OF a] by simp
next
  fix acts assume a: "actions m (h, v, c, d) = Inr acts"
  show "''level'' \<in> set acts"
    unfolding actions_sets[OF a] by simp
next
  fix acts assume a: "actions m (h, v, c, d) = Inr acts"
  show "''retract'' \<in> set acts \<longleftrightarrow>
         c > 0 \<and> (\<exists>lo. py_index (minSpeed (ac m)) (c - 1) = Inr lo \<and> v \<ge> lo)"
    unfolding actions_sets[OF a] by simp
next
  fix acts assume a: "actions m (h, v, c, d) = Inr acts"
  show "''extend'' \<in> set acts \<longleftrightarrow>
         c < int (length (minSpeed (ac m))) - 1 \<and>
         (\<exists>hi. py_index (maxSpeed (ac m)) (c + 1) = Inr hi \<and> v \<le> hi)"
    unfolding actions_sets[OF a] by simp
next
  fix acts assume a: "actions m (h, v, c, d) = Inr acts"
  show "''descend'' \<in> set acts \<longleftrightarrow> h > getDescend m (h, v, c, d)"
    unfolding actions_sets[OF a] by simp
next
  fix acts assume a: "actions m (h, v, c, d) = Inr acts"
  show "''decel'' \<in> set acts \<longleftrightarrow>
         (\<exists>lo. py_index (minSpeed (ac m)) c = Inr lo \<and> v \<ge> lo + getDecel m (h, v, c, d))"
    unfolding actions_sets[OF a] by simp
next
  fix acts assume a: "actions m (h, v, c, d) = Inr acts"
  show "''accel'' \<in> set acts \<longleftrightarrow>
         (\<exists>hi. py_index (maxSpeed (ac m)) c = Inr hi \<and> v \<le> hi - dS m)"
    unfolding actions_sets[OF a] by simp
next
  fix acts assume a: "actions m (h, v, c, d) = Inr acts"
  show "set acts \<subseteq> {''climb'', ''level'', ''retract'', ''extend'', ''descend'', ''decel'', ''accel''}"
    unfolding actions_sets[OF a] by auto
qed

theorem actions_legal_witness:
  "0 \<le> (1::int) \<and> 1 < int (length (minSpeed (ac mdp737))) \<and>
   length (maxSpeed (ac mdp737)) = length (minSpeed (ac mdp737)) \<and>
   actions mdp737 (1000, 85, 1, 5000) =
     Inr [''climb'', ''level'', ''extend'', ''descend'', ''decel'', ''accel''] \<and>
   ''retract'' \<notin> set [''climb'', ''level'', ''extend'', ''descend'', ''decel'', ''accel'']"
proof -
  have e: "actions mdp737 (1000, 85, 1, 5000) =
     Inr [''climb'', ''level'', ''extend'', ''descend'', ''decel'', ''accel'']"
    by (simp add: actions_def mdp737_def b737_def py_index_def bind_e_def getDescend_def
        getDecel_def dA_def dS_def)
  show ?thesis
    using actions_legal[of 1 mdp737 1000 85 5000] e
    by (simp add: mdp737_def b737_def)
qed

section \<open>Properties of the rollout\<close>

lemma recordSpeeds_value:
  assumes "getRho (env m) 0 = Inr r0" and "getRho (env m) h = Inr ra" and "ra \<noteq> 0"
    and "state r = (h, v, c, d)"
  shows "recordSpeeds m r =
     Inr (r\<lparr>EAS := EAS r @ [v], TAS := TAS r @ [r0 / ra * v],
            velDist := velDist r @ [d / 1000]\<rparr>)"
  using assms by (simp add: recordSpeeds_def bind_e_Inr py_div_def)

lemma recordSpeeds_Inr:
  assumes "recordSpeeds m r = Inr r1" and "state r = (h, v, c, d)"
  shows "\<exists>r0 ra. getRho (env m) 0 = Inr r0 \<and> getRho (env m) h = Inr ra \<and> ra \<noteq> 0 \<and>
     r1 = r\<lparr>EAS := EAS r @ [v], TAS := TAS r @ [r0 / ra * v],
            velDist := velDist r @ [d / 1000]\<rparr>"
  using assms unfolding recordSpeeds_def
  by (auto simp: bind_e_eq_Inr py_div_def split: if_splits)

lemma recordAction_fields:
  "state (recordAction a r) = state r"
  "fuelUsed (recordAction a r) = fuelUsed r"
  "velDist (recordAction a r) = velDist r"
  "EAS (recordAction a r) = EAS r"
  "TAS (recordAction a r) = TAS r"
  "action (recordAction a r) = action r"
  by (simp_all add: recordAction_def Let_def split: prod.splits)

lemma recordChange_fields:
  "state (recordChange p a r) = state r"
  "fuelUsed (recordChange p a r) = fuelUsed r"
  "velDist (recordChange p a r) = velDist r"
  "EAS (recordChange p a r) = EAS r"
  "TAS (recordChange p a r) = TAS r"
  "action (recordChange p a r) = action r"
  by (simp_all add: recordChange_def split: prod.splits)

lemma py_index_first: "outs \<noteq> [] \<Longrightarrow> py_index outs 0 = Inr (hd outs)"
  by (cases outs) (simp_all add: py_index_def)

lemma loopBody_Inr:
  assumes b: "loopBody m vi_pi r = Inr r'" and s: "state r = (h, v, c, d)" and d: "0 < d"
  shows "\<exists>r1 cost outs.
     recordSpeeds m (r\<lparr>action := vi_pi (h, v, c, d)\<rparr>) = Inr r1 \<and>
     getCost m (h, v, c, d) (vi_pi (h, v, c, d)) = Inr cost \<and>
     succAndProbReward m (h, v, c, d) (vi_pi (h, v, c, d)) = Inr outs \<and> outs \<noteq> [] \<and>
     snd (snd (snd (fst (hd outs)))) = d - dD m \<and>
     r' = (recordChange (action r) (vi_pi (h, v, c, d))
             (recordAction (vi_pi (h, v, c, d)) r1))
          \<lparr>state := fst (hd outs), fuelUsed := fuelUsed r + cost\<rparr>"
proof -
  let ?a = "vi_pi (h, v, c, d)"
  from b obtain r1 outs x where
    r1: "recordSpeeds m (r\<lparr>action := ?a\<rparr>) = Inr r1"
    and outs: "succAndProbReward m (h, v, c, d) ?a = Inr outs"
    and x: "py_index outs 0 = Inr x"
    and r': "r' = (recordChange (action r) ?a (recordAction ?a r1))
          \<lparr>state := fst x,
           fuelUsed := fuelUsed (recordChange (action r) ?a (recordAction ?a r1)) - snd (snd x)\<rparr>"
    unfolding loopBody_def Let_def s bind_e_eq_Inr by (auto split: prod.splits)
  have ne: "outs \<noteq> []"
    by (rule succ_nonempty[OF d outs])
  then have hd: "x = hd outs"
    using x by (simp add: py_index_first)
  obtain cost where cost: "getCost m (h, v, c, d) ?a = Inr cost"
    using outs unfolding succ_flight[OF d] bind_e_eq_Inr by blast
  from succ_outcomes[OF d cost] outs
  have all: "\<forall>out \<in> set outs. snd (snd out) = - cost \<and> snd (snd (snd (fst out))) = d - dD m"
    by simp
  have hdin: "hd outs \<in> set outs"
    using ne by simp
  have f: "fuelUsed r1 = fuelUsed r"
    using recordSpeeds_Inr[OF r1] s by auto
  show ?thesis
    using r1 cost outs ne all hdin r' f
    by (auto simp: hd recordChange_fields recordAction_fields)
qed

lemma loopBody_value:
  assumes r1: "recordSpeeds m (r\<lparr>action := vi_pi (h, v, c, d)\<rparr>) = Inr r1"
    and cost: "getCost m (h, v, c, d) (vi_pi (h, v, c, d)) = Inr cost"
    and s: "state r = (h, v, c, d)" and d: "0 < d"
  shows "\<exists>outs. succAndProbReward m (h, v, c, d) (vi_pi (h, v, c, d)) = Inr outs \<and>
     outs \<noteq> [] \<and>
     loopBody m vi_pi r =
       Inr ((recordChange (action r) (vi_pi (h, v, c, d))
             (recordAction (vi_pi (h, v, c, d)) r1))
          \<lparr>state := fst (hd outs), fuelUsed := fuelUsed r + cost\<rparr>)"
proof -
  let ?a = "vi_pi (h, v, c, d)"
  obtain outs where outs: "succAndProbReward m (h, v, c, d) ?a = Inr outs"
    and all: "\<forall>out \<in> set outs. snd (snd out) = - cost \<and> snd (snd (snd (fst out))) = d - dD m"
    using succ_outcomes[OF d cost] by blast
  have ne: "outs \<noteq> []"
    by (rule succ_nonempty[OF d outs])
  then have "hd outs \<in> set outs" by simp
  with all have rw: "snd (snd (hd outs)) = - cost" by blast
  have f: "fuelUsed r1 = fuelUsed r"
    using recordSpeeds_Inr[OF r1] s by auto
  have "loopBody m vi_pi r =
       Inr ((recordChange (action r) ?a (recordAction ?a r1))
          \<lparr>state := fst (hd outs), fuelUsed := fuelUsed r + cost\<rparr>)"
    unfolding loopBody_def Let_def s r1 outs bind_e_Inr py_index_first[OF ne]
    by (simp add: case_prod_beta rw f recordChange_fields recordAction_fields)
  with outs ne show ?thesis by blast
qed


lemma succ_primary:
  assumes "0 < d" and "succAndProbReward m (h, v, c, d) act = Inr outs"
  shows "fst (hd outs) =
     (if act = Some ''climb'' then (h - dA m, v, c, d - dD m)
      else if act = Some ''descend'' then (h - dA m, v, c, d - dD m)
      else if act = Some ''extend'' then (h, v, c + 1, d - dD m)
      else if act = Some ''retract'' then (h, v, c - 1, d - dD m)
      else if act = Some ''accel'' then (h, v + dS m, c, d - dD m)
      else if act = Some ''decel'' then (h, v - dS m, c, d - dD m)
      else (h, v, c, d - dD m))"
proof -
  obtain cost where cost: "getCost m (h, v, c, d) act = Inr cost"
    using assms(2) unfolding succ_flight[OF assms(1)] bind_e_eq_Inr by blast
  note outs = assms(2)[unfolded succ_flight[OF assms(1)] cost bind_e_Inr]
  consider "act = Some ''climb''" | "act = Some ''descend''" | "act = Some ''extend''"
    | "act = Some ''retract''" | "act = Some ''accel''" | "act = Some ''decel''"
    | "act \<noteq> Some ''climb''" "act \<noteq> Some ''descend''" "act \<noteq> Some ''extend''"
      "act \<noteq> Some ''retract''" "act \<noteq> Some ''accel''" "act \<noteq> Some ''decel''"
    by blast
  then show ?thesis
  proof cases
    case 1
    with outs show ?thesis by auto
  next
    case 2
    with outs show ?thesis by auto
  next
    case 3
    with outs show ?thesis by auto
  next
    case 4
    with outs show ?thesis by auto
  next
    case 5
    with outs show ?thesis by auto
  next
    case 6
    with outs show ?thesis by auto
  next
    case 7
    with outs show ?thesis by auto
  qed
qed

lemma succ_distance:
  assumes "0 < d" and "succAndProbReward m (h, v, c, d) act = Inr outs"
  shows "\<forall>out \<in> set outs. snd (snd (snd (fst out))) = d - dD m"
proof -
  obtain cost where "getCost m (h, v, c, d) act = Inr cost"
    using assms(2) unfolding succ_flight[OF assms(1)] bind_e_eq_Inr by blast
  from succ_outcomes[OF assms(1) this] assms(2) show ?thesis
    by simp
qed

lemma loopBody_step:
  assumes "loopBody m vi_pi r = Inr r'" and "state r = (h, v, c, d)" and "0 < d"
  shows "velDist r' = velDist r @ [d / 1000]" and "snd (snd (snd (state r'))) = d - dD m"
proof -
  from loopBody_Inr[OF assms]
  obtain r1 cost outs where r1: "recordSpeeds m (r\<lparr>action := vi_pi (h, v, c, d)\<rparr>) = Inr r1"
    and "getCost m (h, v, c, d) (vi_pi (h, v, c, d)) = Inr cost"
    and "succAndProbReward m (h, v, c, d) (vi_pi (h, v, c, d)) = Inr outs"
    and "outs \<noteq> []"
    and dist: "snd (snd (snd (fst (hd outs)))) = d - dD m"
    and r': "r' = (recordChange (action r) (vi_pi (h, v, c, d))
             (recordAction (vi_pi (h, v, c, d)) r1))
          \<lparr>state := fst (hd outs), fuelUsed := fuelUsed r + cost\<rparr>"
    by (elim exE conjE) (rule that)
  have "velDist r1 = velDist r @ [d / 1000]"
    using recordSpeeds_Inr[OF r1, of h v c d] assms(2) by auto
  then show "velDist r' = velDist r @ [d / 1000]"
    by (simp add: r' recordChange_fields recordAction_fields)
  show "snd (snd (snd (state r'))) = d - dD m"
    by (simp add: r' dist)
qed

lemma whileLoop_terminates:
  assumes "0 < dD m"
  shows "snd (snd (snd (state r))) \<le> real n * dD m \<Longrightarrow> \<exists>res. whileLoop n m vi_pi r = Some res"
proof (induction n arbitrary: r)
  case 0
  then show ?case by simp
next
  case (Suc n)
  obtain h v c d where s: "state r = (h, v, c, d)"
    by (cases "state r") auto
  show ?case
  proof (cases "0 < d")
    case False
    then show ?thesis using s by simp
  next
    case True
    show ?thesis
    proof (cases "loopBody m vi_pi r")
      case (Inl err)
      then show ?thesis using s True by simp
    next
      case (Inr r')
      have "snd (snd (snd (state r'))) = d - dD m"
        by (rule loopBody_step(2)[OF Inr s True])
      moreover have "d \<le> real (Suc n) * dD m"
        using Suc.prems s by simp
      ultimately have "snd (snd (snd (state r'))) \<le> real n * dD m"
        by (simp add: algebra_simps)
      from Suc.IH[OF this] show ?thesis
        using s True Inr by simp
    qed
  qed
qed

lemma whileLoop_more_fuel:
  "whileLoop n m vi_pi r = Some res \<Longrightarrow> whileLoop (n + k) m vi_pi r = Some res"
proof (induction n arbitrary: r)
  case 0
  then have g: "\<not> 0 < snd (snd (snd (state r)))" and res: "res = Inr r"
    by (simp_all split: if_splits)
  show ?case
    using g res by (cases k) simp_all
next
  case (Suc n)
  show ?case
  proof (cases "0 < snd (snd (snd (state r)))")
    case False
    then show ?thesis using Suc.prems by simp
  next
    case True
    show ?thesis
    proof (cases "loopBody m vi_pi r")
      case (Inl err)
      then have "res = Inl err"
        using Suc.prems True by simp
      then show ?thesis using Inl True by simp
    next
      case (Inr r1)
      then have "whileLoop n m vi_pi r1 = Some res"
        using Suc.prems True by simp
      from Suc.IH[OF this] show ?thesis
        using True Inr by simp
    qed
  qed
qed

lemma whileLoop_velDist:
  "whileLoop n m vi_pi r = Some (Inr r') \<Longrightarrow>
     \<exists>ds. velDist r' = velDist r @ ds \<and> length ds \<le> n \<and> (\<forall>x \<in> set ds. 0 < x)"
proof (induction n arbitrary: r)
  case 0
  then show ?case by (auto split: if_splits)
next
  case (Suc n)
  obtain h v c d where s: "state r = (h, v, c, d)"
    by (cases "state r") auto
  show ?case
  proof (cases "0 < d")
    case False
    then show ?thesis using Suc.prems s by auto
  next
    case True
    then obtain r1 where b: "loopBody m vi_pi r = Inr r1"
      and w: "whileLoop n m vi_pi r1 = Some (Inr r')"
      using Suc.prems s by (auto split: sum.splits)
    from Suc.IH[OF w] obtain ds where ds: "velDist r' = velDist r1 @ ds" "length ds \<le> n"
      "\<forall>x \<in> set ds. 0 < x"
      by blast
    have "velDist r1 = velDist r @ [d / 1000]"
      by (rule loopBody_step(1)[OF b s True])
    then have "velDist r' = velDist r @ (d / 1000 # ds)"
      using ds(1) by simp
    moreover have "length (d / 1000 # ds) \<le> Suc n"
      using ds(2) by simp
    moreover have "\<forall>x \<in> set (d / 1000 # ds). 0 < x"
      using ds(3) True by simp
    ultimately show ?thesis by blast
  qed
qed

lemma ceiling_fuel:
  assumes "0 < (k::real)"
  shows "d \<le> real (nat \<lceil>d / k\<rceil>) * k"
proof -
  have "d / k \<le> of_int \<lceil>d / k\<rceil>"
    by (rule le_of_int_ceiling)
  also have "\<dots> \<le> real (nat \<lceil>d / k\<rceil>)"
    by simp
  finally show ?thesis
    using assms by (simp add: field_simps)
qed

section \<open>The two-step trajectory\<close>

lemma mdp737_fields:
  "env mdp737 = ISA" "ac mdp737 = b737" "dD mdp737 = 1000" "dS mdp737 = 5" "dA mdp737 = 50"
  "eta b737 \<noteq> 0"
  by (simp_all add: mdp737_def b737_def dD_def dS_def dA_def)

lemma loopBody_mdp737:
  assumes s: "state r = (h, v, c, d)" and d: "0 < d" and h: "- 44330 \<le> h"
    and v: "0 < v" and c: "- 5 \<le> c" "c < 5"
  shows "\<exists>q cost outs.
     getCost mdp737 (h, v, c, d) (vi_pi (h, v, c, d)) = Inr cost \<and>
     succAndProbReward mdp737 (h, v, c, d) (vi_pi (h, v, c, d)) = Inr outs \<and>
     loopBody mdp737 vi_pi r =
       Inr ((recordChange (action r) (vi_pi (h, v, c, d))
              (recordAction (vi_pi (h, v, c, d))
                 (r\<lparr>action := vi_pi (h, v, c, d), EAS := EAS r @ [v],
                    TAS := TAS r @ [q * v], velDist := velDist r @ [d / 1000]\<rparr>)))
            \<lparr>state := fst (hd outs), fuelUsed := fuelUsed r + cost\<rparr>)"
proof -
  let ?a = "vi_pi (h, v, c, d)"
  have r0: "getRho (env mdp737) 0 = Inr 1.225"
    using ISA_getRho_0 by (simp add: mdp737_fields)
  obtain ra where ra: "getRho (env mdp737) h = Inr ra" "0 < ra"
    using ISA_getRho_pos[OF h] by (auto simp: mdp737_fields)
  have eta: "eta (ac mdp737) \<noteq> 0"
    by (simp add: mdp737_fields)
  obtain cost where cost: "getCost mdp737 (h, v, c, d) ?a = Inr cost"
    using getCost_defined[OF r0 ra(1) _ ra(2) v c eta, of d ?a] by auto
  have s': "state (r\<lparr>action := ?a\<rparr>) = (h, v, c, d)"
    using s by simp
  have ne: "ra \<noteq> 0"
    using ra(2) by simp
  have r1: "recordSpeeds mdp737 (r\<lparr>action := ?a\<rparr>) =
     Inr (r\<lparr>action := ?a, EAS := EAS r @ [v], TAS := TAS r @ [1.225 / ra * v],
            velDist := velDist r @ [d / 1000]\<rparr>)"
    using recordSpeeds_value[OF r0 ra(1) ne s'] by simp
  from loopBody_value[where vi_pi = vi_pi and m = mdp737 and r = r, OF r1 cost s d]
  show ?thesis
    using cost by blast
qed

lemma two_step_first:
  "\<exists>q cost.
     getCost mdp737 (1000, 75, 3, 2000) (Some ''level'') = Inr cost \<and>
     loopBody mdp737 twoStepPolicy (initRollout (1000, 75, 3, 2000) (Some ''level'')) =
       Inr \<lparr>alt = [1000], altDec = [], altAcc = [], dist_l = [2], distDec = [], distAcc = [],
            retractionA = [], retractionD = [], extensionD = [], extensionA = [],
            EAS = [75], TAS = [q * 75], velDist = [2], fuelUsed = cost,
            state = (1000, 75, 3, 1000), action = Some ''level''\<rparr>"
proof -
  let ?r = "initRollout (1000, 75, 3, 2000) (Some ''level'')"
  have a: "twoStepPolicy (1000, 75, 3, 2000) = Some ''level''"
    by (simp add: twoStepPolicy_def)
  have s: "state ?r = (1000, 75, 3, 2000)"
    by (simp add: initRollout_def)
  obtain q cost outs where
    cost: "getCost mdp737 (1000, 75, 3, 2000) (Some ''level'') = Inr cost"
    and outs: "succAndProbReward mdp737 (1000, 75, 3, 2000) (Some ''level'') = Inr outs"
    and b: "loopBody mdp737 twoStepPolicy ?r =
       Inr ((recordChange (action ?r) (Some ''level'')
              (recordAction (Some ''level'')
                 (?r\<lparr>action := Some ''level'', EAS := EAS ?r @ [75],
                    TAS := TAS ?r @ [q * 75], velDist := velDist ?r @ [2000 / 1000]\<rparr>)))
            \<lparr>state := fst (hd outs), fuelUsed := fuelUsed ?r + cost\<rparr>)"
    using loopBody_mdp737[where vi_pi = twoStepPolicy and r = ?r, OF s] unfolding a by auto
  have p: "fst (hd outs) = (1000, 75, 3, 1000)"
    using succ_primary[OF _ outs] by (simp add: mdp737_fields)
  show ?thesis
    apply (rule exI[of _ q], rule exI[of _ cost])
    unfolding b p
    by (simp add: cost initRollout_def recordChange_def recordAction_def)
qed

lemma two_step_second:
  assumes "state r = (1000, 75, 3, 1000)" and "action r = Some ''level''"
  shows "\<exists>q cost.
     getCost mdp737 (1000, 75, 3, 1000) (Some ''decel'') = Inr cost \<and>
     loopBody mdp737 twoStepPolicy r =
       Inr (r\<lparr>alt := alt r @ [1000], altDec := altDec r @ [1000],
              dist_l := dist_l r @ [1], distDec := distDec r @ [1],
              EAS := EAS r @ [75], TAS := TAS r @ [q * 75], velDist := velDist r @ [1],
              fuelUsed := fuelUsed r + cost,
              state := (1000, 70, 3, 0), action := Some ''decel''\<rparr>)"
proof -
  have a: "twoStepPolicy (1000, 75, 3, 1000) = Some ''decel''"
    by (simp add: twoStepPolicy_def)
  obtain q cost outs where
    cost: "getCost mdp737 (1000, 75, 3, 1000) (Some ''decel'') = Inr cost"
    and outs: "succAndProbReward mdp737 (1000, 75, 3, 1000) (Some ''decel'') = Inr outs"
    and b: "loopBody mdp737 twoStepPolicy r =
       Inr ((recordChange (action r) (Some ''decel'')
              (recordAction (Some ''decel'')
                 (r\<lparr>action := Some ''decel'', EAS := EAS r @ [75],
                    TAS := TAS r @ [q * 75], velDist := velDist r @ [1000 / 1000]\<rparr>)))
            \<lparr>state := fst (hd outs), fuelUsed := fuelUsed r + cost\<rparr>)"
    using loopBody_mdp737[where vi_pi = twoStepPolicy and r = r, OF assms(1)] unfolding a by auto
  have p: "fst (hd outs) = (1000, 70, 3, 0)"
    using succ_primary[OF _ outs] by (simp add: mdp737_fields)
  show ?thesis
    apply (rule exI[of _ q], rule exI[of _ cost])
    unfolding b p
    by (simp add: cost assms recordChange_def recordAction_def)
qed


section \<open>The loop of the rollout\<close>

text \<open>
  C3. For a state with distance greater than 0, every successor that
  \<open>succAndProbReward\<close> returns has the distance of the state less \<open>dD\<close>, whatever
  the action. So for a positive step the loop of the rollout ends: the fuel
  \<open>ceiling (distance / dD)\<close>, and any larger one, gives a result, and a run that
  ends without an exception has recorded at most that many iterations.
\<close>

theorem rollout_distance_decreases:
  "(0 < d \<and> succAndProbReward m (h, v, c, d) act = Inr outs \<longrightarrow>
      (\<forall>out \<in> set outs. snd (snd (snd (fst out))) = d - dD m)) \<and>
   (0 < dD m \<and> state r = (h, v, c, d) \<longrightarrow>
      (\<exists>res. (\<forall>n \<ge> nat \<lceil>d / dD m\<rceil>. whileLoop n m vi_pi r = Some res) \<and>
         (\<forall>r'. res = Inr r' \<longrightarrow>
            (\<exists>ds. velDist r' = velDist r @ ds \<and> length ds \<le> nat \<lceil>d / dD m\<rceil>))))"
proof (intro conjI impI)
  assume "0 < d \<and> succAndProbReward m (h, v, c, d) act = Inr outs"
  then show "\<forall>out \<in> set outs. snd (snd (snd (fst out))) = d - dD m"
    using succ_distance by blast
next
  assume a: "0 < dD m \<and> state r = (h, v, c, d)"
  define N where "N = nat \<lceil>d / dD m\<rceil>"
  have "snd (snd (snd (state r))) \<le> real N * dD m"
    using a ceiling_fuel[of "dD m" d] by (simp add: N_def)
  then obtain res where res: "whileLoop N m vi_pi r = Some res"
    using whileLoop_terminates a by blast
  have "whileLoop n m vi_pi r = Some res" if "n \<ge> N" for n
    using whileLoop_more_fuel[OF res, of "n - N"] that by simp
  moreover have "\<exists>ds. velDist r' = velDist r @ ds \<and> length ds \<le> N" if "res = Inr r'" for r'
    using whileLoop_velDist[of N m vi_pi r r'] res that by blast
  ultimately show "\<exists>res. (\<forall>n \<ge> nat \<lceil>d / dD m\<rceil>. whileLoop n m vi_pi r = Some res) \<and>
         (\<forall>r'. res = Inr r' \<longrightarrow>
            (\<exists>ds. velDist r' = velDist r @ ds \<and> length ds \<le> nat \<lceil>d / dD m\<rceil>))"
    unfolding N_def by blast
qed

theorem rollout_distance_decreases_witness:
  "(0::real) < 2000 \<and> 0 < dD mdp737 \<and>
   state (initRollout (1000, 75, 3, 2000) (Some ''level'')) = (1000, 75, 3, 2000) \<and>
   (\<exists>outs. succAndProbReward mdp737 (1000, 75, 3, 2000) (Some ''level'') = Inr outs \<and>
      outs \<noteq> [] \<and> list_all (\<lambda>out. snd (snd (snd (fst out))) = 1000) outs) \<and>
   (\<exists>res. whileLoop 2 mdp737 twoStepPolicy (initRollout (1000, 75, 3, 2000) (Some ''level''))
      = Some res)"
proof -
  let ?r = "initRollout (1000, 75, 3, 2000) (Some ''level'')"
  have s: "state ?r = (1000, 75, 3, 2000)"
    by (simp add: initRollout_def)
  obtain cost where "getCost mdp737 (1000, 75, 3, 2000) (Some ''level'') = Inr cost"
    using two_step_first by blast
  from succ_outcomes[OF _ this]
  obtain outs where outs: "succAndProbReward mdp737 (1000, 75, 3, 2000) (Some ''level'') = Inr outs"
    by auto
  have ne: "outs \<noteq> []"
    using succ_nonempty[OF _ outs] by simp
  have n: "nat \<lceil>2000 / dD mdp737\<rceil> = 2"
    by (simp add: mdp737_fields)
  note t = rollout_distance_decreases[where d = 2000 and m = mdp737 and h = 1000 and v = 75
      and c = 3 and act = "Some ''level''" and outs = outs and r = ?r and vi_pi = twoStepPolicy]
  have "list_all (\<lambda>out. snd (snd (snd (fst out))) = 1000) outs"
    using t outs by (simp add: list_all_iff mdp737_fields)
  moreover have "\<exists>res. whileLoop 2 mdp737 twoStepPolicy ?r = Some res"
    using t s unfolding n by (auto simp: mdp737_fields)
  ultimately show ?thesis
    using outs ne s by (simp add: mdp737_fields)
qed



section \<open>A change of action\<close>

text \<open>
  What lines 53 to 82 append for a state, by the action taken and the previous
  action: each of the two puts the state once on its own line (the deceleration line
  for decel, the acceleration line for accel, the constant speed line for every other
  action), the previous action only where it differs from the action taken. The flap
  markers get the state for the action taken only.
\<close>

lemma record_blocks:
  assumes s: "state r1 = (h, v, c, d)"
  shows
    "distDec (recordChange prev act (recordAction act r1)) =
       distDec r1 @ replicate ((if act = Some ''decel'' then 1 else 0) +
         (if prev \<noteq> act \<and> prev = Some ''decel'' then 1 else 0)) (d / 1000) \<and>
     altDec (recordChange prev act (recordAction act r1)) =
       altDec r1 @ replicate ((if act = Some ''decel'' then 1 else 0) +
         (if prev \<noteq> act \<and> prev = Some ''decel'' then 1 else 0)) h \<and>
     distAcc (recordChange prev act (recordAction act r1)) =
       distAcc r1 @ replicate ((if act = Some ''accel'' then 1 else 0) +
         (if prev \<noteq> act \<and> prev = Some ''accel'' then 1 else 0)) (d / 1000) \<and>
     altAcc (recordChange prev act (recordAction act r1)) =
       altAcc r1 @ replicate ((if act = Some ''accel'' then 1 else 0) +
         (if prev \<noteq> act \<and> prev = Some ''accel'' then 1 else 0)) h \<and>
     dist_l (recordChange prev act (recordAction act r1)) =
       dist_l r1 @ replicate
         ((if act \<noteq> Some ''decel'' \<and> act \<noteq> Some ''accel'' then 1 else 0) +
          (if prev \<noteq> act \<and> prev \<noteq> Some ''decel'' \<and> prev \<noteq> Some ''accel'' then 1 else 0))
         (d / 1000) \<and>
     alt (recordChange prev act (recordAction act r1)) =
       alt r1 @ replicate
         ((if act \<noteq> Some ''decel'' \<and> act \<noteq> Some ''accel'' then 1 else 0) +
          (if prev \<noteq> act \<and> prev \<noteq> Some ''decel'' \<and> prev \<noteq> Some ''accel'' then 1 else 0))
         h \<and>
     extensionD (recordChange prev act (recordAction act r1)) =
       extensionD r1 @ (if act = Some ''extend'' then [d / 1000] else []) \<and>
     extensionA (recordChange prev act (recordAction act r1)) =
       extensionA r1 @ (if act = Some ''extend'' then [h] else []) \<and>
     retractionD (recordChange prev act (recordAction act r1)) =
       retractionD r1 @ (if act = Some ''retract'' then [d / 1000] else []) \<and>
     retractionA (recordChange prev act (recordAction act r1)) =
       retractionA r1 @ (if act = Some ''retract'' then [h] else [])"
proof -
  have sa: "state (recordAction act r1) = (h, v, c, d)"
    using s by (simp add: recordAction_fields)
  consider (dec) "act = Some ''decel''" | (acc) "act = Some ''accel''"
    | (ext) "act = Some ''extend''" | (ret) "act = Some ''retract''"
    | (oth) "act \<noteq> Some ''decel''" "act \<noteq> Some ''accel''" "act \<noteq> Some ''extend''"
        "act \<noteq> Some ''retract''"
    by blast
  then show ?thesis
  proof cases
    case dec
    then show ?thesis
      unfolding recordChange_def sa prod.case
      by (simp add: recordAction_def s)
  next
    case acc
    then show ?thesis
      unfolding recordChange_def sa prod.case
      by (simp add: recordAction_def s)
  next
    case ext
    then show ?thesis
      unfolding recordChange_def sa prod.case
      by (simp add: recordAction_def s)
  next
    case ret
    then show ?thesis
      unfolding recordChange_def sa prod.case
      by (simp add: recordAction_def s)
  next
    case oth
    then show ?thesis
      unfolding recordChange_def sa prod.case
      by (simp add: recordAction_def s)
  qed
qed


text \<open>
  C9. In an iteration of the rollout where the action the policy gives differs from
  the previous one, the state (its distance over 1000 and its altitude) is appended
  to the line of the previous action and to the line of the new action, the lines
  being the deceleration line for decel, the acceleration line for accel and the
  constant speed line for every other action: once for each of the two actions. The
  flap extension and flap retraction markers get the state only when the new action
  is extend or retract.
\<close>

theorem action_change_recorded_on_lines:
  assumes "loopBody m vi_pi r = Inr r'" and "state r = (h, v, c, d)" and "0 < d"
    and "action r \<noteq> vi_pi (h, v, c, d)"
  shows "let prev = action r; act = vi_pi (h, v, c, d);
             nDec = (if act = Some ''decel'' then 1 else 0) +
                    (if prev = Some ''decel'' then 1 else (0::nat));
             nAcc = (if act = Some ''accel'' then 1 else 0) +
                    (if prev = Some ''accel'' then 1 else (0::nat));
             nCon = (if act \<noteq> Some ''decel'' \<and> act \<noteq> Some ''accel'' then 1 else 0) +
                    (if prev \<noteq> Some ''decel'' \<and> prev \<noteq> Some ''accel'' then 1 else (0::nat))
         in distDec r' = distDec r @ replicate nDec (d / 1000) \<and>
            altDec r' = altDec r @ replicate nDec h \<and>
            distAcc r' = distAcc r @ replicate nAcc (d / 1000) \<and>
            altAcc r' = altAcc r @ replicate nAcc h \<and>
            dist_l r' = dist_l r @ replicate nCon (d / 1000) \<and>
            alt r' = alt r @ replicate nCon h \<and>
            extensionD r' = extensionD r @ (if act = Some ''extend'' then [d / 1000] else []) \<and>
            extensionA r' = extensionA r @ (if act = Some ''extend'' then [h] else []) \<and>
            retractionD r' = retractionD r @ (if act = Some ''retract'' then [d / 1000] else []) \<and>
            retractionA r' = retractionA r @ (if act = Some ''retract'' then [h] else [])"
proof -
  let ?a = "vi_pi (h, v, c, d)"
  from loopBody_Inr[OF assms(1-3)]
  obtain r1 cost outs where r1: "recordSpeeds m (r\<lparr>action := ?a\<rparr>) = Inr r1"
    and "getCost m (h, v, c, d) ?a = Inr cost"
    and "succAndProbReward m (h, v, c, d) ?a = Inr outs"
    and "outs \<noteq> []"
    and "snd (snd (snd (fst (hd outs)))) = d - dD m"
    and r': "r' = (recordChange (action r) ?a (recordAction ?a r1))
          \<lparr>state := fst (hd outs), fuelUsed := fuelUsed r + cost\<rparr>"
    by (elim exE conjE) (rule that)
  have s': "state (r\<lparr>action := ?a\<rparr>) = (h, v, c, d)"
    using assms(2) by simp
  from recordSpeeds_Inr[OF r1 s'] obtain r0 ra where
    r1_eq: "r1 = r\<lparr>action := ?a, EAS := EAS r @ [v], TAS := TAS r @ [r0 / ra * v],
                   velDist := velDist r @ [d / 1000]\<rparr>"
    by (elim exE conjE) (rule that, simp)
  have s1: "state r1 = (h, v, c, d)"
    using assms(2) by (simp add: r1_eq)
  have e: "distDec r1 = distDec r" "altDec r1 = altDec r" "distAcc r1 = distAcc r"
    "altAcc r1 = altAcc r" "dist_l r1 = dist_l r" "alt r1 = alt r"
    "extensionD r1 = extensionD r" "extensionA r1 = extensionA r"
    "retractionD r1 = retractionD r" "retractionA r1 = retractionA r"
    by (simp_all add: r1_eq)
  have u: "distDec (x\<lparr>state := s, fuelUsed := f\<rparr>) = distDec x"
    "altDec (x\<lparr>state := s, fuelUsed := f\<rparr>) = altDec x"
    "distAcc (x\<lparr>state := s, fuelUsed := f\<rparr>) = distAcc x"
    "altAcc (x\<lparr>state := s, fuelUsed := f\<rparr>) = altAcc x"
    "dist_l (x\<lparr>state := s, fuelUsed := f\<rparr>) = dist_l x"
    "alt (x\<lparr>state := s, fuelUsed := f\<rparr>) = alt x"
    "extensionD (x\<lparr>state := s, fuelUsed := f\<rparr>) = extensionD x"
    "extensionA (x\<lparr>state := s, fuelUsed := f\<rparr>) = extensionA x"
    "retractionD (x\<lparr>state := s, fuelUsed := f\<rparr>) = retractionD x"
    "retractionA (x\<lparr>state := s, fuelUsed := f\<rparr>) = retractionA x"
    for x :: rollout and s f
    by simp_all
  have ne: "(action r \<noteq> ?a) = True"
    using assms(4) by simp
  note blocks = record_blocks[OF s1, of "action r" ?a, unfolded e ne simp_thms]
  show ?thesis
    unfolding Let_def r' u by (rule blocks)
qed

theorem action_change_recorded_on_lines_witness:
  "state (initRollout (1000, 75, 3, 1000) (Some ''level'')) = (1000, 75, 3, 1000) \<and>
   (0::real) < 1000 \<and>
   action (initRollout (1000, 75, 3, 1000) (Some ''level'')) \<noteq> twoStepPolicy (1000, 75, 3, 1000) \<and>
   (\<exists>r'. loopBody mdp737 twoStepPolicy
             ((initRollout (1000, 75, 3, 1000) (Some ''level''))
                \<lparr>dist_l := [2], alt := [1000]\<rparr>) = Inr r' \<and>
      dist_l r' = [2, 1] \<and> alt r' = [1000, 1000] \<and> distDec r' = [1] \<and> altDec r' = [1000] \<and>
      extensionD r' = [] \<and> retractionD r' = [])"
proof -
  let ?r = "(initRollout (1000, 75, 3, 1000) (Some ''level''))\<lparr>dist_l := [2], alt := [1000]\<rparr>"
  have s: "state ?r = (1000, 75, 3, 1000)" and a: "action ?r = Some ''level''"
    by (simp_all add: initRollout_def)
  have p: "twoStepPolicy (1000, 75, 3, 1000) = Some ''decel''"
    by (simp add: twoStepPolicy_def)
  obtain r' where b: "loopBody mdp737 twoStepPolicy ?r = Inr r'"
    using two_step_second[OF s a] by blast
  have ne: "action ?r \<noteq> twoStepPolicy (1000, 75, 3, 1000)"
    by (simp add: a p)
  have "dist_l r' = [2, 1] \<and> alt r' = [1000, 1000] \<and> distDec r' = [1] \<and> altDec r' = [1000] \<and>
      extensionD r' = [] \<and> retractionD r' = []"
    using action_change_recorded_on_lines[OF b s _ ne]
    by (simp add: a p initRollout_def Let_def)
  then show ?thesis
    using b by (simp add: initRollout_def p)
qed

text \<open>
  The trajectory of a flap extension followed by level flight: the state at which the
  change to level is seen, at distance 1000, is put twice on the constant speed line
  and not among the flap extension markers.
\<close>

lemma extend_level_first:
  "\<exists>q cost.
     loopBody mdp737 extendLevelPolicy (initRollout (1000, 75, 2, 2000) (Some ''extend'')) =
       Inr \<lparr>alt = [1000], altDec = [], altAcc = [], dist_l = [2], distDec = [], distAcc = [],
            retractionA = [], retractionD = [], extensionD = [2], extensionA = [1000],
            EAS = [75], TAS = [q * 75], velDist = [2], fuelUsed = cost,
            state = (1000, 75, 3, 1000), action = Some ''extend''\<rparr>"
proof -
  let ?r = "initRollout (1000, 75, 2, 2000) (Some ''extend'')"
  have a: "extendLevelPolicy (1000, 75, 2, 2000) = Some ''extend''"
    by (simp add: extendLevelPolicy_def)
  have s: "state ?r = (1000, 75, 2, 2000)"
    by (simp add: initRollout_def)
  obtain q cost outs where
    outs: "succAndProbReward mdp737 (1000, 75, 2, 2000) (Some ''extend'') = Inr outs"
    and b: "loopBody mdp737 extendLevelPolicy ?r =
       Inr ((recordChange (action ?r) (Some ''extend'')
              (recordAction (Some ''extend'')
                 (?r\<lparr>action := Some ''extend'', EAS := EAS ?r @ [75],
                    TAS := TAS ?r @ [q * 75], velDist := velDist ?r @ [2000 / 1000]\<rparr>)))
            \<lparr>state := fst (hd outs), fuelUsed := fuelUsed ?r + cost\<rparr>)"
    using loopBody_mdp737[where vi_pi = extendLevelPolicy and r = ?r, OF s] unfolding a by auto
  have p: "fst (hd outs) = (1000, 75, 3, 1000)"
    using succ_primary[OF _ outs] by (simp add: mdp737_fields)
  show ?thesis
    apply (rule exI[of _ q], rule exI[of _ cost])
    unfolding b p
    by (simp add: initRollout_def recordChange_def recordAction_def)
qed

lemma extend_level_second:
  assumes "state r = (1000, 75, 3, 1000)" and "action r = Some ''extend''"
  shows "\<exists>q cost.
     loopBody mdp737 extendLevelPolicy r =
       Inr (r\<lparr>alt := alt r @ [1000, 1000], dist_l := dist_l r @ [1, 1],
              EAS := EAS r @ [75], TAS := TAS r @ [q * 75], velDist := velDist r @ [1],
              fuelUsed := fuelUsed r + cost,
              state := (1000, 75, 3, 0), action := Some ''level''\<rparr>)"
proof -
  have a: "extendLevelPolicy (1000, 75, 3, 1000) = Some ''level''"
    by (simp add: extendLevelPolicy_def)
  obtain q cost outs where
    outs: "succAndProbReward mdp737 (1000, 75, 3, 1000) (Some ''level'') = Inr outs"
    and b: "loopBody mdp737 extendLevelPolicy r =
       Inr ((recordChange (action r) (Some ''level'')
              (recordAction (Some ''level'')
                 (r\<lparr>action := Some ''level'', EAS := EAS r @ [75],
                    TAS := TAS r @ [q * 75], velDist := velDist r @ [1000 / 1000]\<rparr>)))
            \<lparr>state := fst (hd outs), fuelUsed := fuelUsed r + cost\<rparr>)"
    using loopBody_mdp737[where vi_pi = extendLevelPolicy and r = r, OF assms(1)]
    unfolding a by auto
  have p: "fst (hd outs) = (1000, 75, 3, 0)"
    using succ_primary[OF _ outs] by (simp add: mdp737_fields)
  show ?thesis
    apply (rule exI[of _ q], rule exI[of _ cost])
    unfolding b p
    by (simp add: assms recordChange_def recordAction_def)
qed

lemma extend_level_loop:
  "\<exists>q1 q2 cost1 cost2.
     whileLoop 2 mdp737 extendLevelPolicy (initRollout (1000, 75, 2, 2000) (Some ''extend'')) =
       Some (Inr \<lparr>alt = [1000, 1000, 1000], altDec = [], altAcc = [],
                  dist_l = [2, 1, 1], distDec = [], distAcc = [],
                  retractionA = [], retractionD = [], extensionD = [2], extensionA = [1000],
                  EAS = [75, 75], TAS = [q1 * 75, q2 * 75], velDist = [2, 1],
                  fuelUsed = cost1 + cost2, state = (1000, 75, 3, 0),
                  action = Some ''level''\<rparr>)"
proof -
  obtain q1 cost1 where
    b1: "loopBody mdp737 extendLevelPolicy (initRollout (1000, 75, 2, 2000) (Some ''extend'')) =
       Inr \<lparr>alt = [1000], altDec = [], altAcc = [], dist_l = [2], distDec = [], distAcc = [],
            retractionA = [], retractionD = [], extensionD = [2], extensionA = [1000],
            EAS = [75], TAS = [q1 * 75], velDist = [2], fuelUsed = cost1,
            state = (1000, 75, 3, 1000), action = Some ''extend''\<rparr>"
    using extend_level_first by blast
  define r1 where "r1 = \<lparr>alt = [1000::real], altDec = [], altAcc = [], dist_l = [2], distDec = [],
            distAcc = [],
            retractionA = [], retractionD = [], extensionD = [2], extensionA = [1000],
            EAS = [75], TAS = [q1 * 75], velDist = [2], fuelUsed = cost1,
            state = (1000, 75, 3, 1000), action = Some ''extend''\<rparr>"
  have s1: "state r1 = (1000, 75, 3, 1000)" "action r1 = Some ''extend''"
    by (simp_all add: r1_def)
  obtain q2 cost2 where
    b2: "loopBody mdp737 extendLevelPolicy r1 =
       Inr (r1\<lparr>alt := alt r1 @ [1000, 1000], dist_l := dist_l r1 @ [1, 1],
              EAS := EAS r1 @ [75], TAS := TAS r1 @ [q2 * 75], velDist := velDist r1 @ [1],
              fuelUsed := fuelUsed r1 + cost2,
              state := (1000, 75, 3, 0), action := Some ''level''\<rparr>)"
    using extend_level_second[OF s1] by blast
  have two: "(2::nat) = Suc (Suc 0)"
    by simp
  have s0: "state (initRollout (1000, 75, 2, 2000) (Some ''extend'')) = (1000, 75, 2, 2000)"
    by (simp add: initRollout_def)
  have "whileLoop 2 mdp737 extendLevelPolicy (initRollout (1000, 75, 2, 2000) (Some ''extend'')) =
     Some (Inr (r1\<lparr>alt := alt r1 @ [1000, 1000], dist_l := dist_l r1 @ [1, 1],
              EAS := EAS r1 @ [75], TAS := TAS r1 @ [q2 * 75], velDist := velDist r1 @ [1],
              fuelUsed := fuelUsed r1 + cost2,
              state := (1000, 75, 3, 0), action := Some ''level''\<rparr>))"
    unfolding two whileLoop.simps s0 b1 r1_def[symmetric]
    by (simp add: s1 b2)
  then show ?thesis
    by (auto simp: r1_def)
qed

theorem action_change_misses_flap_bucket:
  "extendLevelPolicy (1000, 75, 2, 2000) = Some ''extend'' \<and>
   extendLevelPolicy (1000, 75, 3, 1000) = Some ''level'' \<and>
   whileLoop 2 mdp737 extendLevelPolicy (initRollout (1000, 75, 2, 2000) (Some ''extend''))
     \<noteq> None \<and>
   \<not> isl (the (whileLoop 2 mdp737 extendLevelPolicy
                  (initRollout (1000, 75, 2, 2000) (Some ''extend'')))) \<and>
   velDist (projr (the (whileLoop 2 mdp737 extendLevelPolicy
                  (initRollout (1000, 75, 2, 2000) (Some ''extend''))))) = [2, 1] \<and>
   extensionD (projr (the (whileLoop 2 mdp737 extendLevelPolicy
                  (initRollout (1000, 75, 2, 2000) (Some ''extend''))))) = [2] \<and>
   extensionA (projr (the (whileLoop 2 mdp737 extendLevelPolicy
                  (initRollout (1000, 75, 2, 2000) (Some ''extend''))))) = [1000] \<and>
   dist_l (projr (the (whileLoop 2 mdp737 extendLevelPolicy
                  (initRollout (1000, 75, 2, 2000) (Some ''extend''))))) = [2, 1, 1] \<and>
   alt (projr (the (whileLoop 2 mdp737 extendLevelPolicy
                  (initRollout (1000, 75, 2, 2000) (Some ''extend''))))) = [1000, 1000, 1000]"
proof -
  obtain r2 where w: "whileLoop 2 mdp737 extendLevelPolicy
        (initRollout (1000, 75, 2, 2000) (Some ''extend'')) = Some (Inr r2)"
    and f: "velDist r2 = [2, 1]" "extensionD r2 = [2]" "extensionA r2 = [1000]"
      "dist_l r2 = [2, 1, 1]" "alt r2 = [1000, 1000, 1000]"
    using extend_level_loop by auto
  show ?thesis
    unfolding w by (simp add: f extendLevelPolicy_def)
qed

section \<open>The velocity trace\<close>

lemma ISA_density_11000:
  "\<exists>ra. getRho ISA 11000 = Inr ra \<and> 0 < ra \<and> 1 < 1.225 / ra"
proof -
  define base where "base = 1 - ISA_L_b * 11000 / ISA_T_0"
  define ex where "ex = 1 + ISA_g * ISA_M_g / ISA_R / ISA_L_b"
  have b: "1 < base"
    by (simp add: base_def ISA_L_b_def ISA_T_0_def)
  have e: "ex < 0"
    by (simp add: ex_def ISA_g_def ISA_M_g_def ISA_R_def ISA_L_b_def)
  have p: "py_pow base ex = Inr (base powr ex)"
    using b by (simp add: py_pow_def)
  have "ISA_getRho_low 11000 = Inr (ISA_rho_0 * base powr ex)"
    unfolding ISA_getRho_low_def base_def[symmetric] ex_def[symmetric] p
    by (simp only: bind_e_Inr)
  then have r: "getRho ISA 11000 = Inr (1.225 * base powr ex)"
    by (simp add: ISA_def ISA_getRho_def ISA_h_t_def ISA_rho_0_def)
  have lt: "base powr ex < 1"
    by (rule powr_less_one[OF b e])
  have gt: "0 < base powr ex"
    using b by simp
  have "1 < 1.225 / (1.225 * base powr ex)"
    using lt gt by (simp add: field_simps)
  moreover have "0 < 1.225 * base powr ex"
    using gt by simp
  ultimately show ?thesis
    using r by blast
qed

lemma ratio_not_sqrt:
  assumes "1 < (q::real)"
  shows "q * v \<noteq> v * sqrt q \<or> v = 0"
proof -
  have "q < q\<^sup>2"
    using assms by (simp add: power2_eq_square)
  then have "sqrt q < q"
    using assms by (intro real_less_lsqrt) simp_all
  then show ?thesis
    by auto
qed

lemma loopBody_mdp737_density:
  assumes s: "state r = (h, v, c, d)" and d: "0 < d" and ra: "getRho ISA h = Inr ra" "0 < ra"
    and v: "0 < v" and c: "- 5 \<le> c" "c < 5"
  shows "\<exists>cost outs.
     getCost mdp737 (h, v, c, d) (vi_pi (h, v, c, d)) = Inr cost \<and>
     succAndProbReward mdp737 (h, v, c, d) (vi_pi (h, v, c, d)) = Inr outs \<and>
     loopBody mdp737 vi_pi r =
       Inr ((recordChange (action r) (vi_pi (h, v, c, d))
              (recordAction (vi_pi (h, v, c, d))
                 (r\<lparr>action := vi_pi (h, v, c, d), EAS := EAS r @ [v],
                    TAS := TAS r @ [1.225 / ra * v], velDist := velDist r @ [d / 1000]\<rparr>)))
            \<lparr>state := fst (hd outs), fuelUsed := fuelUsed r + cost\<rparr>)"
proof -
  let ?a = "vi_pi (h, v, c, d)"
  have r0: "getRho (env mdp737) 0 = Inr 1.225"
    using ISA_getRho_0 by (simp add: mdp737_fields)
  have ra': "getRho (env mdp737) h = Inr ra"
    using ra(1) by (simp add: mdp737_fields)
  have eta: "eta (ac mdp737) \<noteq> 0"
    by (simp add: mdp737_fields)
  obtain cost where cost: "getCost mdp737 (h, v, c, d) ?a = Inr cost"
    using getCost_defined[OF r0 ra' _ ra(2) v c eta, of d ?a] by auto
  have s': "state (r\<lparr>action := ?a\<rparr>) = (h, v, c, d)"
    using s by simp
  have ne: "ra \<noteq> 0"
    using ra(2) by simp
  have r1: "recordSpeeds mdp737 (r\<lparr>action := ?a\<rparr>) =
     Inr (r\<lparr>action := ?a, EAS := EAS r @ [v], TAS := TAS r @ [1.225 / ra * v],
            velDist := velDist r @ [d / 1000]\<rparr>)"
    using recordSpeeds_value[OF r0 ra' ne s'] by simp
  from loopBody_value[where vi_pi = vi_pi and m = mdp737 and r = r, OF r1 cost s d]
  show ?thesis
    using cost by blast
qed

text \<open>
  C5. The velocity trace of a rollout from the demo's cruise altitude, one step before
  the final approach fix: for the state of the loop iteration and for the final state
  the code appends \<open>rho 0 / rho altitude * speed\<close>, which is not
  \<open>speed * sqrt (rho 0 / rho altitude)\<close>.
\<close>

theorem velocity_trace_misses_sqrt:
  "\<exists>ra r. getRho ISA 0 = Inr 1.225 \<and> getRho ISA 11000 = Inr ra \<and>
     plotTrajectory 1 mdp737 [(11000, 105, 0, 1000) \<mapsto> ''level''] (11000, 105, 0, 1000)
       = Some (Inr (Some r)) \<and>
     EAS r = [105, 105] \<and>
     TAS r = [1.225 / ra * 105, 1.225 / ra * 105] \<and>
     1.225 / ra * 105 \<noteq> 105 * sqrt (1.225 / ra)"
proof -
  let ?p = "[(11000, 105, 0, 1000) \<mapsto> ''level''] :: policy"
  let ?r = "initRollout (11000, 105, 0, 1000) (Some ''level'')"
  obtain ra where ra: "getRho ISA 11000 = Inr ra" "0 < ra" "1 < 1.225 / ra"
    using ISA_density_11000 by blast
  have a: "?p (11000, 105, 0, 1000) = Some ''level''"
    by simp
  have s: "state ?r = (11000, 105, 0, 1000)"
    by (simp add: initRollout_def)
  obtain cost outs where
    outs: "succAndProbReward mdp737 (11000, 105, 0, 1000) (Some ''level'') = Inr outs"
    and b: "loopBody mdp737 ?p ?r =
       Inr ((recordChange (action ?r) (Some ''level'')
              (recordAction (Some ''level'')
                 (?r\<lparr>action := Some ''level'', EAS := EAS ?r @ [105],
                    TAS := TAS ?r @ [1.225 / ra * 105], velDist := velDist ?r @ [1000 / 1000]\<rparr>)))
            \<lparr>state := fst (hd outs), fuelUsed := fuelUsed ?r + cost\<rparr>)"
    using loopBody_mdp737_density[where vi_pi = ?p and r = ?r, OF s _ ra(1) ra(2)]
    unfolding a by auto
  have p: "fst (hd outs) = (11000, 105, 0, 0)"
    using succ_primary[OF _ outs] by (simp add: mdp737_fields)
  define r1 where "r1 = \<lparr>alt = [11000::real], altDec = [], altAcc = [], dist_l = [1],
      distDec = [], distAcc = [],
      retractionA = [], retractionD = [], extensionD = [], extensionA = [],
      EAS = [105], TAS = [1.225 / ra * 105], velDist = [1], fuelUsed = cost,
      state = (11000, 105, 0, 0), action = Some ''level''\<rparr>"
  have b1: "loopBody mdp737 ?p ?r = Inr r1"
    unfolding b p r1_def by (simp add: initRollout_def recordChange_def recordAction_def)
  have s1: "state r1 = (11000, 105, 0, 0)"
    by (simp add: r1_def)
  have w: "whileLoop 1 mdp737 ?p ?r = Some (Inr r1)"
    using s s1 b1 by simp
  have r0: "getRho (env mdp737) 0 = Inr 1.225"
    using ISA_getRho_0 by (simp add: mdp737_fields)
  have ra': "getRho (env mdp737) 11000 = Inr ra"
    using ra(1) by (simp add: mdp737_fields)
  have ne: "ra \<noteq> 0"
    using ra(2) by simp
  define rf where "rf = r1\<lparr>EAS := EAS r1 @ [105], TAS := TAS r1 @ [1.225 / ra * 105],
      velDist := velDist r1 @ [0 / 1000], dist_l := dist_l r1 @ [0 / 1000],
      alt := alt r1 @ [11000]\<rparr>"
  have f: "finalRecord mdp737 r1 = Inr rf"
    unfolding finalRecord_def s1 prod.case recordSpeeds_value[OF r0 ra' ne s1] bind_e_Inr rf_def
    by (simp add: r1_def)
  have "plotTrajectory 1 mdp737 ?p (11000, 105, 0, 1000) = Some (Inr (Some rf))"
    unfolding plotTrajectory_def using w f by simp
  moreover have "EAS rf = [105, 105]" "TAS rf = [1.225 / ra * 105, 1.225 / ra * 105]"
    by (simp_all add: rf_def r1_def)
  moreover have "1.225 / ra * 105 \<noteq> 105 * sqrt (1.225 / ra)"
    using ratio_not_sqrt[OF ra(3), of 105] by simp
  ultimately show ?thesis
    using ISA_getRho_0 ra(1) by blast
qed

section \<open>The search for a start state\<close>

lemma nat_not_half_odd:
  "real (n::nat) \<noteq> 2001 / 2" "real n \<noteq> 1 / 2"
proof -
  have "2 * n \<noteq> 2001" "2 * n \<noteq> 1"
    by presburger+
  then have "real (2 * n) \<noteq> real 2001" "real (2 * n) \<noteq> real 1"
    unfolding of_nat_eq_iff by blast+
  then show "real n \<noteq> 2001 / 2" "real n \<noteq> 1 / 2"
    by auto
qed

lemma search_never_ends:
  "searchLoop n [(1000, 70, 0, 0) \<mapsto> ''level''] (1000.5, 70, 0, 0) (1000.5, 70, 0, 0) i = None"
proof (induction n arbitrary: i)
  case 0
  show ?case by simp
next
  case (Suc n)
  have h: "real (Suc i) \<noteq> 1 / 2" "real (Suc i) \<noteq> 2001 / 2"
    using nat_not_half_odd[of "Suc i"] by blast+
  have "searchLoop (Suc n) [(1000, 70, 0, 0) \<mapsto> ''level''] (1000.5, 70, 0, 0) (1000.5, 70, 0, 0) i
      = searchLoop n [(1000, 70, 0, 0) \<mapsto> ''level''] (1000.5, 70, 0, 0) (1000.5, 70, 0, 0) (i + 1)"
    using h by (simp add: truthy_def Let_def max_def)
  also have "\<dots> = None"
    by (rule Suc.IH)
  finally show ?case .
qed

lemma search_nothing_before:
  assumes "i < 4"
  shows "searchLoop (Suc n) [(5, 0, 0, 0) \<mapsto> ''level''] (5, 5, 0, 0) (5, 5, 0, 0) i
      = searchLoop n [(5, 0, 0, 0) \<mapsto> ''level''] (5, 5, 0, 0) (5, 5, 0, 0) (Suc i)"
proof -
  have "real (Suc i) \<noteq> 5"
    using assms by (simp add: of_nat_Suc del: of_nat_Suc)
  then show ?thesis
    by (simp add: truthy_def Let_def)
qed

lemma search_found_but_reported_missing:
  "searchLoop 5 [(5, 0, 0, 0) \<mapsto> ''level''] (5, 5, 0, 0) (5, 5, 0, 0) 0 = Some None"
proof -
  have five: "(5::nat) = Suc (Suc (Suc (Suc (Suc 0))))"
    by simp
  have last: "searchLoop (Suc 0) [(5, 0, 0, 0) \<mapsto> ''level''] (5, 5, 0, 0) (5, 5, 0, 0)
      (Suc (Suc (Suc (Suc 0)))) = Some None"
    by (simp add: truthy_def Let_def)
  have "searchLoop 5 [(5, 0, 0, 0) \<mapsto> ''level''] (5, 5, 0, 0) (5, 5, 0, 0) 0 =
      searchLoop (Suc 0) [(5, 0, 0, 0) \<mapsto> ''level''] (5, 5, 0, 0) (5, 5, 0, 0)
      (Suc (Suc (Suc (Suc 0))))"
    unfolding five by (simp add: search_nothing_before del: searchLoop.simps)
  then show ?thesis
    unfolding last .
qed


lemma search_reports_failure:
  assumes "max h v = real N"
  shows "i < N \<Longrightarrow> N - i \<le> n \<Longrightarrow>
     searchLoop n Map.empty (h, v, c, d) (h, v, c, d) i = Some None"
proof (induction n arbitrary: i)
  case 0
  then show ?case by simp
next
  case (Suc n)
  show ?case
  proof (cases "Suc i = N")
    case True
    then have "real (i + 1) = max h v"
      using assms by simp
    then show ?thesis
      by (simp add: truthy_def Let_def del: of_nat_Suc of_nat_add)
  next
    case False
    then have "real (i + 1) \<noteq> max h v"
      unfolding assms of_nat_eq_iff by simp
    then have "searchLoop (Suc n) Map.empty (h, v, c, d) (h, v, c, d) i =
        searchLoop n Map.empty (h, v, c, d) (h, v, c, d) (i + 1)"
      by (simp add: truthy_def Let_def del: of_nat_Suc of_nat_add)
    also have "\<dots> = Some None"
      using False Suc.prems by (intro Suc.IH) simp_all
    finally show ?thesis .
  qed
qed

lemma search_example:
  "searchLoop (Suc n) [(1000, 70, 0, 0) \<mapsto> ''level''] (1001, 70, 0, 0) (1001, 70, 0, 0) 0
     = Some (Some (1000, 70, 0, 0))"
  by (simp add: truthy_def Let_def)

lemma trajectory_example:
  "\<exists>r. plotTrajectory (Suc n) mdp737 [(1000, 70, 0, 0) \<mapsto> ''level''] (1001, 70, 0, 0)
          = Some (Inr (Some r)) \<and>
       state r = (1000, 70, 0, 0) \<and> EAS r = [70] \<and> velDist r = [0] \<and>
       dist_l r = [0] \<and> alt r = [1000]"
proof -
  let ?p = "[(1000, 70, 0, 0) \<mapsto> ''level''] :: policy"
  let ?r = "initRollout (1000, 70, 0, 0) (Some ''level'')"
  have s: "state ?r = (1000, 70, 0, 0)"
    by (simp add: initRollout_def)
  have w: "whileLoop (Suc n) mdp737 ?p ?r = Some (Inr ?r)"
    by (simp add: s)
  have r0: "getRho (env mdp737) 0 = Inr 1.225"
    using ISA_getRho_0 by (simp add: mdp737_fields)
  obtain ra where ra: "getRho (env mdp737) 1000 = Inr ra" "0 < ra"
    using ISA_getRho_pos[of 1000] by (auto simp: mdp737_fields)
  have ne: "ra \<noteq> 0"
    using ra(2) by simp
  define rf where "rf = ?r\<lparr>EAS := EAS ?r @ [70], TAS := TAS ?r @ [1.225 / ra * 70],
      velDist := velDist ?r @ [0 / 1000], dist_l := dist_l ?r @ [0 / 1000],
      alt := alt ?r @ [1000]\<rparr>"
  have f: "finalRecord mdp737 ?r = Inr rf"
    unfolding finalRecord_def s prod.case recordSpeeds_value[OF r0 ra(1) ne s] bind_e_Inr rf_def
    by (simp add: initRollout_def)
  have "plotTrajectory (Suc n) mdp737 ?p (1001, 70, 0, 0) = Some (Inr (Some rf))"
    unfolding plotTrajectory_def using search_example[of n] w f by simp
  moreover have "state rf = (1000, 70, 0, 0)" "EAS rf = [70]" "velDist rf = [0]"
    "dist_l rf = [0]" "alt rf = [1000]"
    by (simp_all add: rf_def initRollout_def)
  ultimately show ?thesis
    by blast
qed

text \<open>
  C8. Two start states at which the search does not do what the specification says. From
  altitude 1000.5 with a policy that holds (1000, 70, 0, 0) only, no perturbed state
  has an entry and the counter never equals the larger of altitude and speed: the
  search has no result for any fuel, so no failure is reported. From (5, 5, 0, 0) with
  a policy that holds (5, 0, 0, 0) only, the entry is found by the speed perturbation
  of 5 and the rollout reports failure all the same.
\<close>

theorem search_start_state_failing_inputs:
  "(\<forall>n. plotTrajectory n mdp737 [(1000, 70, 0, 0) \<mapsto> ''level''] (1000.5, 70, 0, 0) = None) \<and>
   [(5, 0, 0, 0) \<mapsto> ''level''] ((5, 5 - real 5, 0, 0) :: state) = Some ''level'' \<and>
   plotTrajectory 5 mdp737 [(5, 0, 0, 0) \<mapsto> ''level''] (5, 5, 0, 0) = Some (Inr None)"
proof -
  have "plotTrajectory n mdp737 [(1000, 70, 0, 0) \<mapsto> ''level''] (1000.5, 70, 0, 0) = None" for n
    unfolding plotTrajectory_def using search_never_ends[of n 0]
    by (simp del: searchLoop.simps)
  moreover have "plotTrajectory 5 mdp737 [(5, 0, 0, 0) \<mapsto> ''level''] (5, 5, 0, 0) = Some (Inr None)"
    unfolding plotTrajectory_def using search_found_but_reported_missing
    by (simp del: searchLoop.simps)
  ultimately show ?thesis
    by simp
qed

end
